theory Spec2Isabelle
  imports Complex_Main
begin

section \<open>Campaign Manager: a shallow embedding of the simulation engine\<close>

text \<open>
  The theory follows the Python sources module by module: \<open>models/state.py\<close>,
  \<open>models/player.py\<close>, \<open>models/actions.py\<close>, \<open>models/events.py\<close>,
  \<open>models/game_state.py\<close>, \<open>data/states_data.py\<close>, \<open>engine/action_processor.py\<close>,
  \<open>engine/event_generator.py\<close>, \<open>engine/electoral_calculator.py\<close>,
  \<open>ai/ai_opponent.py\<close> and \<open>engine/game_engine.py\<close>.

  Conventions.
  \<^item> Python \<open>int\<close> is \<open>int\<close>. Python \<open>float\<close> is \<open>real\<close>: arithmetic is exact, so the
    binary rounding error of IEEE doubles, infinities and NaN are outside the model.
  \<^item> A \<open>dict\<close> is an association list in insertion order; assignment to a key keeps
    the position of a key that is present and appends a new key.
  \<^item> Exceptions are values of the type \<open>error\<close>.
  \<^item> A \<open>random.Random\<close> object is a state of an arbitrary type \<open>'g\<close>; the library
    methods the code calls are the fields of a record \<open>random_ops\<close> that every function
    drawing random numbers takes as its first argument.
\<close>

subsection \<open>Built-ins\<close>

text \<open>
  \<open>round(x, 1)\<close>: rounding to one decimal, halves to the even neighbour.
\<close>

definition py_round1 :: "real \<Rightarrow> real" where
  "py_round1 x =
     (let y = x * 10; f = \<lfloor>y\<rfloor>; d = y - of_int f
      in of_int (if d < 1/2 then f else if 1/2 < d then f + 1
                 else if even f then f else f + 1) / 10)"

text \<open>\<open>d[k] = v\<close> on an insertion-ordered dictionary.\<close>

fun dict_set :: "'k \<Rightarrow> 'v \<Rightarrow> ('k \<times> 'v) list \<Rightarrow> ('k \<times> 'v) list" where
  "dict_set k v [] = [(k, v)]"
| "dict_set k v ((k', v') # kvs) =
     (if k' = k then (k, v) # kvs else (k', v') # dict_set k v kvs)"

definition dict_keys :: "('k \<times> 'v) list \<Rightarrow> 'k list" where
  "dict_keys d = map fst d"

definition dict_values :: "('k \<times> 'v) list \<Rightarrow> 'v list" where
  "dict_values d = map snd d"

datatype error = RuntimeError string | ZeroDivisionError

text \<open>
  The methods of \<open>random.Random\<close> used by the code. \<open>rnd_randbelow n\<close> is the index drawn
  by \<open>choice\<close> on a sequence of length \<open>n\<close>; \<open>rnd_seed s\<close> is the generator state after
  \<open>seed(s)\<close>.
\<close>

record 'g random_ops =
  rnd_random :: "'g \<Rightarrow> real \<times> 'g"
  rnd_randint :: "int \<Rightarrow> int \<Rightarrow> 'g \<Rightarrow> int \<times> 'g"
  rnd_randbelow :: "nat \<Rightarrow> 'g \<Rightarrow> nat \<times> 'g"
  rnd_uniform :: "real \<Rightarrow> real \<Rightarrow> 'g \<Rightarrow> real \<times> 'g"
  rnd_sample :: "string list \<Rightarrow> nat \<Rightarrow> 'g \<Rightarrow> string list \<times> 'g"
  rnd_seed :: "int \<Rightarrow> 'g"

text \<open>
  \<open>rng.choice(seq)\<close>. The library draws an index below \<open>len(seq)\<close>; the reduction modulo
  the length only keeps the model total for an arbitrary \<open>rnd_randbelow\<close>.
\<close>

definition choice :: "'g random_ops \<Rightarrow> 'a list \<Rightarrow> 'g \<Rightarrow> 'a \<times> 'g" where
  "choice R seq g =
     (let (i, g') = rnd_randbelow R (length seq) g in (seq ! (i mod length seq), g'))"

subsection \<open>\<open>models/state.py\<close>\<close>

record State =
  name :: string
  abbrev :: string
  electoral_votes :: int
  incumbent_support :: real
  challenger_support :: real
  lean :: string
  region :: string

definition undecided :: "State \<Rightarrow> real" where
  "undecided self = max 0 (100 - incumbent_support self - challenger_support self)"

definition margin :: "State \<Rightarrow> real" where
  "margin self = incumbent_support self - challenger_support self"

definition leader :: "State \<Rightarrow> string" where
  "leader self =
     (if margin self > 0 then ''Incumbent''
      else if margin self < 0 then ''Challenger''
      else ''Tied'')"

definition competitive :: "State \<Rightarrow> bool" where
  "competitive self = (\<bar>margin self\<bar> \<le> 10)"

definition calculate_lean :: "real \<Rightarrow> string" where
  "calculate_lean m =
     (if m \<ge> 15 then ''Safe Inc''
      else if m \<ge> 5 then ''Lean Inc''
      else if m > -5 then ''Tossup''
      else if m > -15 then ''Lean Chl''
      else ''Safe Chl'')"

text \<open>
  \<open>apply_support_change\<close> in two parts: the values of \<open>new_incumbent\<close> and
  \<open>new_challenger\<close> when the \<open>return\<close> statement is reached (clamped, then scaled down
  when their sum exceeds 100), and the construction of the returned \<open>State\<close>.
\<close>

definition rescaled_supports :: "State \<Rightarrow> real \<Rightarrow> real \<Rightarrow> real \<times> real" where
  "rescaled_supports self incumbent_change challenger_change =
     (let new_incumbent = max 0 (min 100 (incumbent_support self + incumbent_change));
          new_challenger = max 0 (min 100 (challenger_support self + challenger_change));
          total = new_incumbent + new_challenger
      in if total > 100
         then (let ratio = 100 / total
               in (new_incumbent * ratio, new_challenger * ratio))
         else (new_incumbent, new_challenger))"

definition apply_support_change :: "State \<Rightarrow> real \<Rightarrow> real \<Rightarrow> State" where
  "apply_support_change self incumbent_change challenger_change =
     (let (new_incumbent, new_challenger) =
             rescaled_supports self incumbent_change challenger_change
      in \<lparr> name = name self,
           abbrev = abbrev self,
           electoral_votes = electoral_votes self,
           incumbent_support = py_round1 new_incumbent,
           challenger_support = py_round1 new_challenger,
           lean = calculate_lean (new_incumbent - new_challenger),
           region = region self \<rparr>)"

subsection \<open>\<open>models/player.py\<close>\<close>

record Player =
  pname :: string
  is_incumbent :: bool
  funds :: int
  momentum :: int
  is_human :: bool

text \<open>
  \<open>MIN_MOMENTUM\<close> and \<open>MAX_MOMENTUM\<close> are dataclass fields that every construction in
  the code leaves at their defaults.
\<close>

definition MIN_MOMENTUM :: int where "MIN_MOMENTUM = -100"
definition MAX_MOMENTUM :: int where "MAX_MOMENTUM = 100"

definition momentum_modifier :: "Player \<Rightarrow> real" where
  "momentum_modifier self = 1 + of_int (momentum self) / 200"

definition can_afford :: "Player \<Rightarrow> int \<Rightarrow> bool" where
  "can_afford self cost = (funds self \<ge> cost)"

definition adjust_momentum :: "Player \<Rightarrow> int \<Rightarrow> Player" where
  "adjust_momentum self change =
     (let new_momentum = max MIN_MOMENTUM (min MAX_MOMENTUM (momentum self + change))
      in \<lparr> pname = pname self, is_incumbent = is_incumbent self, funds = funds self,
           momentum = new_momentum, is_human = is_human self \<rparr>)"

definition update :: "Player \<Rightarrow> int \<Rightarrow> int \<Rightarrow> Player" where
  "update self funds_change momentum_change =
     (let new_funds = max 0 (funds self + funds_change);
          new_momentum = max MIN_MOMENTUM (min MAX_MOMENTUM (momentum self + momentum_change))
      in \<lparr> pname = pname self, is_incumbent = is_incumbent self, funds = new_funds,
           momentum = new_momentum, is_human = is_human self \<rparr>)"

subsection \<open>\<open>models/actions.py\<close>\<close>

datatype ActionType =
  FUNDRAISER | RALLY | AD_CAMPAIGN | GRASSROOTS | DEBATE_PREP | OPPOSITION_RESEARCH | MEDIA_BLITZ

record ActionDefinition =
  action_type :: ActionType
  def_name :: string
  def_description :: string
  cost :: int
  base_support_change :: real
  momentum_change :: int
  target_states :: int

fun get_action_definition :: "ActionType \<Rightarrow> ActionDefinition" where
  "get_action_definition FUNDRAISER =
     \<lparr> action_type = FUNDRAISER, def_name = ''Fundraiser'',
       def_description = ''Host a fundraising event to replenish campaign funds'',
       cost = 0, base_support_change = 0, momentum_change = -5, target_states = 0 \<rparr>"
| "get_action_definition RALLY =
     \<lparr> action_type = RALLY, def_name = ''Campaign Rally'',
       def_description = ''Hold a rally in a target state to boost support'',
       cost = 2, base_support_change = 3, momentum_change = 5, target_states = 1 \<rparr>"
| "get_action_definition AD_CAMPAIGN =
     \<lparr> action_type = AD_CAMPAIGN, def_name = ''Ad Campaign'',
       def_description = ''Run targeted TV and digital ads in multiple states'',
       cost = 4, base_support_change = 2, momentum_change = 3, target_states = 3 \<rparr>"
| "get_action_definition GRASSROOTS =
     \<lparr> action_type = GRASSROOTS, def_name = ''Grassroots Organizing'',
       def_description = ''Deploy volunteers for door-to-door canvassing'',
       cost = 1, base_support_change = 3 / 2, momentum_change = 2, target_states = 2 \<rparr>"
| "get_action_definition DEBATE_PREP =
     \<lparr> action_type = DEBATE_PREP, def_name = ''Debate Preparation'',
       def_description = ''Prepare for upcoming debates with policy briefings'',
       cost = 1, base_support_change = 0, momentum_change = 10, target_states = 0 \<rparr>"
| "get_action_definition OPPOSITION_RESEARCH =
     \<lparr> action_type = OPPOSITION_RESEARCH, def_name = ''Opposition Research'',
       def_description = ''Investigate opponent's record for attack ads'',
       cost = 3, base_support_change = - (5 / 2), momentum_change = 0, target_states = 0 \<rparr>"
| "get_action_definition MEDIA_BLITZ =
     \<lparr> action_type = MEDIA_BLITZ, def_name = ''Media Blitz'',
       def_description = ''Intensive media appearances across networks'',
       cost = 3, base_support_change = 3 / 2, momentum_change = 8, target_states = 0 \<rparr>"

text \<open>
  The \<open>message\<close> of a result is an f-string; the model keeps which message it is and the
  values interpolated into it, not the formatted text.
\<close>

datatype message =
  CannotAfford string int int
| FundraiserRaised int
| OppositionDamage real
| TargetedBoost string real "string list"
| NationalBoost string real

record ActionResult =
  res_action_type :: ActionType
  success :: bool
  message :: message
  funds_spent :: int
  funds_raised :: int
  support_changes :: "(string \<times> real) list"
  res_momentum_change :: int
  affected_states :: "string list"

subsection \<open>\<open>models/events.py\<close>\<close>

datatype EventType = SCANDAL | ECONOMIC | ENDORSEMENT | GAFFE | CRISIS | VIRAL

record GameEvent =
  event_type :: EventType
  title :: string
  description :: string
  affects_incumbent :: bool
  support_change :: real
  ev_momentum_change :: int
  ev_affected_states :: "string list"
  turn_occurred :: int

definition is_national :: "GameEvent \<Rightarrow> bool" where
  "is_national self = (length (ev_affected_states self) = 0)"

fun EVENT_TEMPLATES :: "EventType \<Rightarrow> (string \<times> string) list" where
  "EVENT_TEMPLATES SCANDAL =
     [(''Campaign Finance Questions'', ''Irregularities discovered in campaign donations''),
      (''Staff Controversy'', ''Senior campaign staffer resigns amid allegations''),
      (''Past Statement Resurfaces'', ''Old social media posts cause controversy'')]"
| "EVENT_TEMPLATES ECONOMIC =
     [(''Jobs Report Released'', ''Monthly employment numbers shift the narrative''),
      (''Stock Market Swing'', ''Market volatility becomes campaign issue''),
      (''Inflation Data'', ''New inflation figures dominate headlines'')]"
| "EVENT_TEMPLATES ENDORSEMENT =
     [(''Celebrity Endorsement'', ''Major celebrity publicly backs candidate''),
      (''Union Endorsement'', ''Powerful labor union announces support''),
      (''Newspaper Endorsement'', ''Influential newspaper editorial board weighs in''),
      (''Former Rival Endorsement'', ''Primary opponent endorses candidate'')]"
| "EVENT_TEMPLATES GAFFE =
     [(''Hot Mic Moment'', ''Candidate caught saying something regrettable''),
      (''Debate Stumble'', ''Awkward moment goes viral from debate''),
      (''Geography Gaffe'', ''Candidate mixes up state facts'')]"
| "EVENT_TEMPLATES CRISIS =
     [(''Natural Disaster'', ''Hurricane/wildfire tests crisis leadership''),
      (''International Incident'', ''Foreign policy crisis emerges''),
      (''Public Health Issue'', ''Health emergency requires response'')]"
| "EVENT_TEMPLATES VIRAL =
     [(''Campaign Ad Goes Viral'', ''Ad resonates unexpectedly with voters''),
      (''Meme Magic'', ''Candidate becomes positive internet sensation''),
      (''Town Hall Moment'', ''Emotional exchange with voter spreads online'')]"

subsection \<open>\<open>models/game_state.py\<close>\<close>

record GameState =
  incumbent :: Player
  challenger :: Player
  states :: "(string \<times> State) list"
  current_turn :: int
  max_turns :: int
  events_log :: "GameEvent list"
  game_over :: bool
  winner :: "string option"

definition turns_remaining :: "GameState \<Rightarrow> int" where
  "turns_remaining self = max_turns self - current_turn self + 1"

definition incumbent_electoral_votes :: "GameState \<Rightarrow> int" where
  "incumbent_electoral_votes self =
     sum_list (map electoral_votes
       (filter (\<lambda>state. incumbent_support state > challenger_support state)
          (dict_values (states self))))"

definition challenger_electoral_votes :: "GameState \<Rightarrow> int" where
  "challenger_electoral_votes self =
     sum_list (map electoral_votes
       (filter (\<lambda>state. challenger_support state > incumbent_support state)
          (dict_values (states self))))"

definition tied_electoral_votes :: "GameState \<Rightarrow> int" where
  "tied_electoral_votes self =
     sum_list (map electoral_votes
       (filter (\<lambda>state. incumbent_support state = challenger_support state)
          (dict_values (states self))))"

definition total_electoral_votes :: "GameState \<Rightarrow> int" where
  "total_electoral_votes self = sum_list (map electoral_votes (dict_values (states self)))"

definition update_state :: "GameState \<Rightarrow> State \<Rightarrow> GameState" where
  "update_state self state = self\<lparr> states := dict_set (abbrev state) state (states self) \<rparr>"

definition add_event :: "GameState \<Rightarrow> GameEvent \<Rightarrow> GameState" where
  "add_event self event = self\<lparr> events_log := events_log self @ [event] \<rparr>"

definition advance_turn :: "GameState \<Rightarrow> GameState" where
  "advance_turn self = self\<lparr> current_turn := current_turn self + 1 \<rparr>"

definition GameState_end_game :: "GameState \<Rightarrow> string \<Rightarrow> GameState" where
  "GameState_end_game self w = self\<lparr> game_over := True, winner := Some w \<rparr>"

definition with_players :: "GameState \<Rightarrow> Player option \<Rightarrow> Player option \<Rightarrow> GameState" where
  "with_players self inc chl =
     self\<lparr> incumbent := (case inc of Some p \<Rightarrow> p | None \<Rightarrow> incumbent self),
           challenger := (case chl of Some p \<Rightarrow> p | None \<Rightarrow> challenger self) \<rparr>"

subsection \<open>\<open>data/states_data.py\<close>\<close>

definition INITIAL_STATES_CONFIG ::
  "(string \<times> string \<times> int \<times> real \<times> real \<times> string \<times> string) list" where
  "INITIAL_STATES_CONFIG =
     [(''California'', ''CA'', 54, 58, 38, ''Safe Inc'', ''West''),
      (''New York'', ''NY'', 28, 56, 40, ''Safe Inc'', ''Northeast''),
      (''Illinois'', ''IL'', 19, 55, 41, ''Safe Inc'', ''Midwest''),
      (''Blue Coalition'', ''BC'', 127, 52, 44, ''Lean Inc'', ''Multiple''),
      (''Florida'', ''FL'', 30, 48, 48, ''Tossup'', ''South''),
      (''Pennsylvania'', ''PA'', 19, 49, 47, ''Tossup'', ''Northeast''),
      (''Georgia'', ''GA'', 16, 47, 49, ''Tossup'', ''South''),
      (''Michigan'', ''MI'', 15, 97 / 2, 95 / 2, ''Tossup'', ''Midwest''),
      (''Arizona'', ''AZ'', 11, 47, 48, ''Tossup'', ''West''),
      (''Wisconsin'', ''WI'', 10, 48, 48, ''Tossup'', ''Midwest''),
      (''Ohio'', ''OH'', 17, 44, 52, ''Lean Chl'', ''Midwest''),
      (''North Carolina'', ''NC'', 16, 45, 51, ''Lean Chl'', ''South''),
      (''Texas'', ''TX'', 40, 42, 54, ''Safe Chl'', ''South''),
      (''Red Coalition'', ''RC'', 136, 38, 58, ''Safe Chl'', ''Multiple'')]"

definition create_initial_states :: "(string \<times> State) list" where
  "create_initial_states =
     fold (\<lambda>(nm, ab, evs, inc_sup, chl_sup, ln, reg) sts.
             dict_set ab \<lparr> name = nm, abbrev = ab, electoral_votes = evs,
                           incumbent_support = inc_sup, challenger_support = chl_sup,
                           lean = ln, region = reg \<rparr> sts)
          INITIAL_STATES_CONFIG []"

subsection \<open>\<open>engine/action_processor.py\<close>\<close>

definition FUNDRAISER_MIN :: int where "FUNDRAISER_MIN = 3"
definition FUNDRAISER_MAX :: int where "FUNDRAISER_MAX = 6"

definition acting_player :: "GameState \<Rightarrow> bool \<Rightarrow> Player" where
  "acting_player game_state is_inc = (if is_inc then incumbent game_state else challenger game_state)"

definition execute_fundraiser ::
  "'g random_ops \<Rightarrow> GameState \<Rightarrow> bool \<Rightarrow> ActionDefinition \<Rightarrow> 'g
     \<Rightarrow> (GameState \<times> ActionResult) \<times> 'g" where
  "execute_fundraiser R game_state is_inc defn rng =
     (let (raised, rng') = rnd_randint R FUNDRAISER_MIN FUNDRAISER_MAX rng;
          player = acting_player game_state is_inc;
          new_player = update player raised (momentum_change defn);
          new_state = (if is_inc then with_players game_state (Some new_player) None
                       else with_players game_state None (Some new_player))
      in ((new_state,
           \<lparr> res_action_type = FUNDRAISER, success = True,
             message = FundraiserRaised raised,
             funds_spent = 0, funds_raised = raised, support_changes = [],
             res_momentum_change = momentum_change defn, affected_states = [] \<rparr>),
          rng'))"

text \<open>
  The loop \<open>for abbrev, state in new_states.items()\<close> of the national actions: its
  body overwrites the entry of the key in the copy and records the effect under the key.
\<close>

fun all_states_step ::
  "(State \<Rightarrow> State) \<Rightarrow> real \<Rightarrow> string \<times> State
     \<Rightarrow> (string \<times> State) list \<times> (string \<times> real) list
     \<Rightarrow> (string \<times> State) list \<times> (string \<times> real) list" where
  "all_states_step change effect (ab, state) (new_states, changes) =
     (dict_set ab (change state) new_states, dict_set ab effect changes)"

definition all_states_loop ::
  "(State \<Rightarrow> State) \<Rightarrow> real \<Rightarrow> (string \<times> State) list
     \<Rightarrow> (string \<times> State) list \<times> (string \<times> real) list" where
  "all_states_loop change effect sts = fold (all_states_step change effect) sts (sts, [])"

definition execute_opposition_research ::
  "GameState \<Rightarrow> bool \<Rightarrow> ActionDefinition \<Rightarrow> GameState \<times> ActionResult" where
  "execute_opposition_research game_state is_inc defn =
     (let player = acting_player game_state is_inc;
          new_player = update player (- cost defn) (momentum_change defn);
          effectiveness = momentum_modifier player;
          effect = base_support_change defn * effectiveness;
          (new_states, changes) =
             all_states_loop
               (\<lambda>state. if is_inc then apply_support_change state 0 effect
                        else apply_support_change state effect 0)
               effect (states game_state);
          new_game_state =
             (if is_inc then game_state\<lparr> incumbent := new_player, states := new_states \<rparr>
              else game_state\<lparr> challenger := new_player, states := new_states \<rparr>)
      in (new_game_state,
          \<lparr> res_action_type = OPPOSITION_RESEARCH, success = True,
            message = OppositionDamage \<bar>effect\<bar>,
            funds_spent = cost defn, funds_raised = 0, support_changes = changes,
            res_momentum_change = momentum_change defn,
            affected_states = dict_keys new_states \<rparr>))"

text \<open>
  \<open>sorted(game_state.states.items(), key=lambda x: abs(x[1].margin))\<close> is a stable sort,
  as \<open>sort_key\<close> is; the slice \<open>[:count]\<close> is taken for a positive count only.
\<close>

definition select_target_states :: "GameState \<Rightarrow> bool \<Rightarrow> int \<Rightarrow> string list" where
  "select_target_states game_state is_inc count =
     (let states_by_margin = sort_key (\<lambda>x. \<bar>margin (snd x)\<bar>) (states game_state)
      in map fst (take (nat count) states_by_margin))"

text \<open>The loop \<open>for abbrev in target_states\<close> with its test \<open>abbrev in new_states\<close>.\<close>

fun targets_step ::
  "(State \<Rightarrow> State) \<Rightarrow> real \<Rightarrow> string
     \<Rightarrow> (string \<times> State) list \<times> (string \<times> real) list
     \<Rightarrow> (string \<times> State) list \<times> (string \<times> real) list" where
  "targets_step change effect ab (new_states, changes) =
     (case map_of new_states ab of
        Some state \<Rightarrow> (dict_set ab (change state) new_states, dict_set ab effect changes)
      | None \<Rightarrow> (new_states, changes))"

definition targets_loop ::
  "(State \<Rightarrow> State) \<Rightarrow> real \<Rightarrow> string list \<Rightarrow> (string \<times> State) list
     \<Rightarrow> (string \<times> State) list \<times> (string \<times> real) list" where
  "targets_loop change effect targets sts = fold (targets_step change effect) targets (sts, [])"

definition execute_targeted_action ::
  "GameState \<Rightarrow> bool \<Rightarrow> ActionDefinition \<Rightarrow> string list option
     \<Rightarrow> GameState \<times> ActionResult" where
  "execute_targeted_action game_state is_inc defn targets_arg =
     (let player = acting_player game_state is_inc;
          targets = (case targets_arg of
                       None \<Rightarrow> select_target_states game_state is_inc (target_states defn)
                     | Some ts \<Rightarrow>
                         if ts = []
                         then select_target_states game_state is_inc (target_states defn)
                         else ts);
          targets = take (nat (target_states defn)) targets;
          new_player = update player (- cost defn) (momentum_change defn);
          effectiveness = momentum_modifier player;
          effect = base_support_change defn * effectiveness;
          (new_states, changes) =
             targets_loop
               (\<lambda>state. if is_inc then apply_support_change state effect 0
                        else apply_support_change state 0 effect)
               effect targets (states game_state);
          new_game_state =
             (if is_inc then game_state\<lparr> incumbent := new_player, states := new_states \<rparr>
              else game_state\<lparr> challenger := new_player, states := new_states \<rparr>)
      in (new_game_state,
          \<lparr> res_action_type = action_type defn, success = True,
            message = TargetedBoost (def_name defn) effect targets,
            funds_spent = cost defn, funds_raised = 0, support_changes = changes,
            res_momentum_change = momentum_change defn,
            affected_states = targets \<rparr>))"

definition execute_national_action ::
  "GameState \<Rightarrow> bool \<Rightarrow> ActionDefinition \<Rightarrow> GameState \<times> ActionResult" where
  "execute_national_action game_state is_inc defn =
     (let player = acting_player game_state is_inc;
          new_player = update player (- cost defn) (momentum_change defn);
          effectiveness = momentum_modifier player;
          effect = (base_support_change defn * effectiveness) * (1 / 2);
          (new_states, changes) =
             all_states_loop
               (\<lambda>state. if is_inc then apply_support_change state effect 0
                        else apply_support_change state 0 effect)
               effect (states game_state);
          new_game_state =
             (if is_inc then game_state\<lparr> incumbent := new_player, states := new_states \<rparr>
              else game_state\<lparr> challenger := new_player, states := new_states \<rparr>)
      in (new_game_state,
          \<lparr> res_action_type = action_type defn, success = True,
            message = NationalBoost (def_name defn) effect,
            funds_spent = cost defn, funds_raised = 0, support_changes = changes,
            res_momentum_change = momentum_change defn,
            affected_states = dict_keys new_states \<rparr>))"

definition execute_action ::
  "'g random_ops \<Rightarrow> GameState \<Rightarrow> ActionType \<Rightarrow> bool \<Rightarrow> string list option \<Rightarrow> 'g
     \<Rightarrow> (GameState \<times> ActionResult) \<times> 'g" where
  "execute_action R game_state atype is_inc targets_arg rng =
     (let defn = get_action_definition atype;
          player = acting_player game_state is_inc
      in if \<not> can_afford player (cost defn)
         then ((game_state,
                \<lparr> res_action_type = atype, success = False,
                  message = CannotAfford (def_name defn) (cost defn) (funds player),
                  funds_spent = 0, funds_raised = 0, support_changes = [],
                  res_momentum_change = 0, affected_states = [] \<rparr>),
               rng)
         else if atype = FUNDRAISER
         then execute_fundraiser R game_state is_inc defn rng
         else if atype = OPPOSITION_RESEARCH
         then (execute_opposition_research game_state is_inc defn, rng)
         else if target_states defn > 0
         then (execute_targeted_action game_state is_inc defn targets_arg, rng)
         else (execute_national_action game_state is_inc defn, rng))"

subsection \<open>\<open>engine/event_generator.py\<close>\<close>

definition EVENT_PROBABILITY :: real where "EVENT_PROBABILITY = 2 / 5"

fun EVENT_EFFECTS :: "EventType \<Rightarrow> (real \<times> real) \<times> (int \<times> int)" where
  "EVENT_EFFECTS SCANDAL = ((- 4, - 2), (- 15, - 5))"
| "EVENT_EFFECTS ECONOMIC = ((- 2, 2), (- 10, 10))"
| "EVENT_EFFECTS ENDORSEMENT = ((3 / 2, 7 / 2), (5, 15))"
| "EVENT_EFFECTS GAFFE = ((- 3, - 1), (- 10, - 5))"
| "EVENT_EFFECTS CRISIS = ((- 3, 3), (- 5, 15))"
| "EVENT_EFFECTS VIRAL = ((1, 3), (5, 20))"

definition generate_event :: "'g random_ops \<Rightarrow> GameState \<Rightarrow> 'g \<Rightarrow> GameEvent \<times> 'g" where
  "generate_event R game_state rng =
     (let (etype, rng) =
             choice R [SCANDAL, ECONOMIC, ENDORSEMENT, GAFFE, CRISIS, VIRAL] rng;
          ((ttl, descr), rng) = choice R (EVENT_TEMPLATES etype) rng;
          (affects, rng) = choice R [True, False] rng;
          (support_range, momentum_range) = EVENT_EFFECTS etype;
          (sup_change, rng) = rnd_uniform R (fst support_range) (snd support_range) rng;
          (mom_change, rng) = rnd_randint R (fst momentum_range) (snd momentum_range) rng;
          (r, rng) = rnd_random R rng;
          (affected, rng) =
             (if r < 3 / 10
              then (let (num_states, rng) = rnd_randint R 1 3 rng;
                        state_abbrevs = dict_keys (states game_state)
                    in rnd_sample R state_abbrevs
                         (nat (min num_states (int (length state_abbrevs)))) rng)
              else ([], rng))
      in (\<lparr> event_type = etype, title = ttl, description = descr,
            affects_incumbent = affects, support_change = py_round1 sup_change,
            ev_momentum_change = mom_change, ev_affected_states = affected,
            turn_occurred = current_turn game_state \<rparr>,
          rng))"

definition maybe_generate_event ::
  "'g random_ops \<Rightarrow> GameState \<Rightarrow> 'g \<Rightarrow> GameEvent option \<times> 'g" where
  "maybe_generate_event R game_state rng =
     (let (r, rng) = rnd_random R rng
      in if r > EVENT_PROBABILITY then (None, rng)
         else (let (event, rng) = generate_event R game_state rng in (Some event, rng)))"

definition apply_event :: "GameState \<Rightarrow> GameEvent \<Rightarrow> GameState" where
  "apply_event game_state event =
     (let (new_incumbent, new_challenger) =
             (if affects_incumbent event
              then (adjust_momentum (incumbent game_state) (ev_momentum_change event),
                    challenger game_state)
              else (incumbent game_state,
                    adjust_momentum (challenger game_state) (ev_momentum_change event)));
          new_states =
             (if is_national event
              then (let effect = support_change event * (1 / 2)
                    in fst (all_states_loop
                         (\<lambda>state. if affects_incumbent event
                                  then apply_support_change state effect 0
                                  else apply_support_change state 0 effect)
                         effect (states game_state)))
              else fst (targets_loop
                         (\<lambda>state. if affects_incumbent event
                                  then apply_support_change state (support_change event) 0
                                  else apply_support_change state 0 (support_change event))
                         (support_change event) (ev_affected_states event)
                         (states game_state)))
      in game_state\<lparr> incumbent := new_incumbent, challenger := new_challenger,
                     states := new_states,
                     events_log := events_log game_state @ [event] \<rparr>)"

subsection \<open>\<open>engine/electoral_calculator.py\<close>\<close>

record ElectionResult =
  er_winner :: string
  incumbent_evs :: int
  challenger_evs :: int
  incumbent_popular :: real
  challenger_popular :: real
  state_results :: "(string \<times> string) list"
  er_margin :: int
  is_landslide :: bool

definition VOTES_TO_WIN :: int where "VOTES_TO_WIN = 270"
definition TOTAL_VOTES :: int where "TOTAL_VOTES = 538"
definition LANDSLIDE_MARGIN :: int where "LANDSLIDE_MARGIN = 100"

definition calculate_current_evs :: "GameState \<Rightarrow> int \<times> int \<times> int" where
  "calculate_current_evs game_state =
     fold (\<lambda>state (inc_evs, chl_evs, tied_evs).
             if incumbent_support state > challenger_support state
             then (inc_evs + electoral_votes state, chl_evs, tied_evs)
             else if challenger_support state > incumbent_support state
             then (inc_evs, chl_evs + electoral_votes state, tied_evs)
             else (inc_evs, chl_evs, tied_evs + electoral_votes state))
          (dict_values (states game_state)) (0, 0, 0)"

definition get_state_winner :: "State \<Rightarrow> string option" where
  "get_state_winner state =
     (if incumbent_support state > challenger_support state then Some ''Incumbent''
      else if challenger_support state > incumbent_support state then Some ''Challenger''
      else None)"

text \<open>
  The first loop of \<open>calculate_final_result\<close> and its body. The coin of a tied state is
  \<open>random.choice([True, False])\<close> on the generator of the module \<open>random\<close>, whose state
  is the last component of the accumulator.
\<close>

fun assign_step ::
  "'g random_ops \<Rightarrow> string \<times> State \<Rightarrow> int \<times> int \<times> (string \<times> string) list \<times> 'g
     \<Rightarrow> int \<times> int \<times> (string \<times> string) list \<times> 'g" where
  "assign_step R (ab, state) (inc_evs, chl_evs, results, g) =
     (if incumbent_support state > challenger_support state
      then (inc_evs + electoral_votes state, chl_evs, dict_set ab ''Incumbent'' results, g)
      else if challenger_support state > incumbent_support state
      then (inc_evs, chl_evs + electoral_votes state, dict_set ab ''Challenger'' results, g)
      else (let (coin, g') = choice R [True, False] g
            in if coin
               then (inc_evs + electoral_votes state, chl_evs,
                     dict_set ab ''Incumbent'' results, g')
               else (inc_evs, chl_evs + electoral_votes state,
                     dict_set ab ''Challenger'' results, g')))"

definition assign_states ::
  "'g random_ops \<Rightarrow> (string \<times> State) list \<Rightarrow> 'g
     \<Rightarrow> int \<times> int \<times> (string \<times> string) list \<times> 'g" where
  "assign_states R sts g = fold (assign_step R) sts (0, 0, [], g)"

text \<open>The chain \<open>if incumbent_evs >= self.VOTES_TO_WIN: ... else: winner = "Incumbent"\<close>.\<close>

definition decide_winner :: "int \<Rightarrow> int \<Rightarrow> string" where
  "decide_winner inc_evs chl_evs =
     (if inc_evs \<ge> VOTES_TO_WIN then ''Incumbent''
      else if chl_evs \<ge> VOTES_TO_WIN then ''Challenger''
      else if inc_evs > chl_evs then ''Incumbent''
      else if chl_evs > inc_evs then ''Challenger''
      else ''Incumbent'')"

text \<open>
  The division by \<open>total_evs\<close> raises \<open>ZeroDivisionError\<close> on a board whose electoral
  votes sum to zero.
\<close>

definition calculate_final_result ::
  "'g random_ops \<Rightarrow> GameState \<Rightarrow> 'g \<Rightarrow> error + (ElectionResult \<times> 'g)" where
  "calculate_final_result R game_state g =
     (let (inc_evs, chl_evs, results, g') = assign_states R (states game_state) g;
          vals = dict_values (states game_state);
          total_evs = sum_list (map electoral_votes vals)
      in if total_evs = 0 then Inl ZeroDivisionError
         else
           (let inc_popular =
                  sum_list (map (\<lambda>s. incumbent_support s * of_int (electoral_votes s)) vals)
                    / of_int total_evs;
                chl_popular =
                  sum_list (map (\<lambda>s. challenger_support s * of_int (electoral_votes s)) vals)
                    / of_int total_evs;
                mrg = inc_evs - chl_evs
            in Inr (\<lparr> er_winner = decide_winner inc_evs chl_evs,
                      incumbent_evs = inc_evs,
                      challenger_evs = chl_evs,
                      incumbent_popular = py_round1 inc_popular,
                      challenger_popular = py_round1 chl_popular,
                      state_results = results,
                      er_margin = mrg,
                      is_landslide = (\<bar>mrg\<bar> \<ge> LANDSLIDE_MARGIN) \<rparr>, g')))"

subsection \<open>\<open>ai/ai_opponent.py\<close>\<close>

datatype AIStrategy = AGGRESSIVE | DEFENSIVE | BALANCED | FUNDRAISING

definition LOSING_THRESHOLD :: int where "LOSING_THRESHOLD = 30"
definition WINNING_THRESHOLD :: int where "WINNING_THRESHOLD = 30"
definition LOW_FUNDS_THRESHOLD :: int where "LOW_FUNDS_THRESHOLD = 2"

definition calculate_evs :: "GameState \<Rightarrow> int \<times> int \<times> int" where
  "calculate_evs game_state =
     fold (\<lambda>state (inc_evs, chl_evs, tied_evs).
             if incumbent_support state > challenger_support state
             then (inc_evs + electoral_votes state, chl_evs, tied_evs)
             else if challenger_support state > incumbent_support state
             then (inc_evs, chl_evs + electoral_votes state, tied_evs)
             else (inc_evs, chl_evs, tied_evs + electoral_votes state))
          (dict_values (states game_state)) (0, 0, 0)"

definition determine_strategy :: "GameState \<Rightarrow> AIStrategy" where
  "determine_strategy game_state =
     (if funds (challenger game_state) < LOW_FUNDS_THRESHOLD then FUNDRAISING
      else (let (inc_evs, chl_evs, tied_evs) = calculate_evs game_state;
                ev_diff = chl_evs - inc_evs
            in if ev_diff \<le> - LOSING_THRESHOLD then AGGRESSIVE
               else if ev_diff \<ge> WINNING_THRESHOLD then DEFENSIVE
               else BALANCED))"

subsection \<open>\<open>engine/game_engine.py\<close>\<close>

text \<open>
  The engine owns the generator of its action processor, the generator of its event
  generator and the current game state. The observer callbacks return nothing and are
  left out. The electoral calculator draws from the generator of the module \<open>random\<close>,
  which the engine does not own: \<open>end_turn\<close>, \<open>end_game\<close> and \<open>get_election_result\<close>
  take its state as an argument and return the new one.
\<close>

record 'g GameEngine =
  action_processor :: 'g
  event_generator :: 'g
  engine_game_state :: "GameState option"

text \<open>
  \<open>GameEngine(seed)\<close>. Without a seed the two generators keep the state the operating
  system gave them, here \<open>fresh_ap\<close> and \<open>fresh_eg\<close>.
\<close>

definition engine_init :: "'g random_ops \<Rightarrow> 'g \<Rightarrow> 'g \<Rightarrow> int option \<Rightarrow> 'g GameEngine" where
  "engine_init R fresh_ap fresh_eg seed =
     (case seed of
        Some s \<Rightarrow> \<lparr> action_processor = rnd_seed R s, event_generator = rnd_seed R s,
                    engine_game_state = None \<rparr>
      | None \<Rightarrow> \<lparr> action_processor = fresh_ap, event_generator = fresh_eg,
                  engine_game_state = None \<rparr>)"

text \<open>The game state that \<open>new_game\<close> builds and stores.\<close>

definition opening_state :: "string \<Rightarrow> string \<Rightarrow> GameState" where
  "opening_state player_name challenger_name =
     \<lparr> incumbent = \<lparr> pname = player_name, is_incumbent = True, funds = 15,
                     momentum = 0, is_human = True \<rparr>,
       challenger = \<lparr> pname = challenger_name, is_incumbent = False, funds = 15,
                      momentum = 0, is_human = False \<rparr>,
       states = create_initial_states,
       current_turn = 1, max_turns = 20, events_log = [],
       game_over = False, winner = None \<rparr>"

definition new_game :: "'g GameEngine \<Rightarrow> string \<Rightarrow> string \<Rightarrow> 'g GameEngine" where
  "new_game e player_name challenger_name =
     e\<lparr> engine_game_state := Some (opening_state player_name challenger_name) \<rparr>"

definition start_turn :: "'g random_ops \<Rightarrow> 'g GameEngine \<Rightarrow> error + 'g GameEngine" where
  "start_turn R e =
     (case engine_game_state e of
        None \<Rightarrow> Inl (RuntimeError ''Game not initialized. Call new_game() first.'')
      | Some gs \<Rightarrow>
          if game_over gs then Inl (RuntimeError ''Game is already over.'')
          else (let (event, rng) = maybe_generate_event R gs (event_generator e)
                in case event of
                     Some ev \<Rightarrow> Inr (e\<lparr> event_generator := rng,
                                        engine_game_state := Some (apply_event gs ev) \<rparr>)
                   | None \<Rightarrow> Inr (e\<lparr> event_generator := rng \<rparr>)))"

definition engine_execute ::
  "'g random_ops \<Rightarrow> 'g GameEngine \<Rightarrow> ActionType \<Rightarrow> bool \<Rightarrow> string list option
     \<Rightarrow> error + ('g GameEngine \<times> ActionResult)" where
  "engine_execute R e atype is_inc targets_arg =
     (case engine_game_state e of
        None \<Rightarrow> Inl (RuntimeError ''Game not initialized.'')
      | Some gs \<Rightarrow>
          (let ((gs', result), rng) =
                  execute_action R gs atype is_inc targets_arg (action_processor e)
           in Inr (e\<lparr> action_processor := rng, engine_game_state := Some gs' \<rparr>, result)))"

definition execute_player_action ::
  "'g random_ops \<Rightarrow> 'g GameEngine \<Rightarrow> ActionType \<Rightarrow> string list option
     \<Rightarrow> error + ('g GameEngine \<times> ActionResult)" where
  "execute_player_action R e atype targets_arg = engine_execute R e atype True targets_arg"

definition execute_ai_action ::
  "'g random_ops \<Rightarrow> 'g GameEngine \<Rightarrow> ActionType \<Rightarrow> string list option
     \<Rightarrow> error + ('g GameEngine \<times> ActionResult)" where
  "execute_ai_action R e atype targets_arg = engine_execute R e atype False targets_arg"

definition end_game :: "'g random_ops \<Rightarrow> 'g GameEngine \<Rightarrow> 'g \<Rightarrow> error + ('g GameEngine \<times> 'g)" where
  "end_game R e g =
     (case engine_game_state e of
        None \<Rightarrow> Inl (RuntimeError ''Game not initialized.'')
      | Some gs \<Rightarrow>
          (case calculate_final_result R gs g of
             Inl err \<Rightarrow> Inl err
           | Inr (result, g') \<Rightarrow>
               Inr (e\<lparr> engine_game_state := Some (GameState_end_game gs (er_winner result)) \<rparr>,
                    g')))"

definition end_turn :: "'g random_ops \<Rightarrow> 'g GameEngine \<Rightarrow> 'g \<Rightarrow> error + ('g GameEngine \<times> 'g)" where
  "end_turn R e g =
     (case engine_game_state e of
        None \<Rightarrow> Inl (RuntimeError ''Game not initialized.'')
      | Some gs \<Rightarrow>
          if current_turn gs \<ge> max_turns gs then end_game R e g
          else Inr (e\<lparr> engine_game_state := Some (advance_turn gs) \<rparr>, g))"

definition get_current_evs :: "'g GameEngine \<Rightarrow> int \<times> int \<times> int" where
  "get_current_evs e =
     (case engine_game_state e of
        None \<Rightarrow> (0, 0, 0)
      | Some gs \<Rightarrow> calculate_current_evs gs)"


definition is_game_over :: "'g GameEngine \<Rightarrow> bool" where
  "is_game_over e =
     (case engine_game_state e of None \<Rightarrow> False | Some gs \<Rightarrow> game_over gs)"

text \<open>
  The engines a caller can reach: a fresh engine, and the engine after any call that
  returned.
\<close>

inductive reachable :: "'g random_ops \<Rightarrow> 'g GameEngine \<Rightarrow> bool" for R :: "'g random_ops" where
  reach_init: "reachable R (engine_init R fresh_ap fresh_eg seed)"
| reach_new_game: "reachable R e \<Longrightarrow> reachable R (new_game e player_name challenger_name)"
| reach_start_turn: "reachable R e \<Longrightarrow> start_turn R e = Inr e' \<Longrightarrow> reachable R e'"
| reach_player_action:
    "reachable R e \<Longrightarrow> execute_player_action R e atype targets_arg = Inr (e', result)
       \<Longrightarrow> reachable R e'"
| reach_ai_action:
    "reachable R e \<Longrightarrow> execute_ai_action R e atype targets_arg = Inr (e', result)
       \<Longrightarrow> reachable R e'"
| reach_end_turn: "reachable R e \<Longrightarrow> end_turn R e g = Inr (e', g') \<Longrightarrow> reachable R e'"
| reach_end_game: "reachable R e \<Longrightarrow> end_game R e g = Inr (e', g') \<Longrightarrow> reachable R e'"

subsection \<open>A scripted generator for concrete runs\<close>

text \<open>
  The theorems below hold for every generator. To run the model on concrete inputs, the
  generator \<open>scripted\<close> reads its draws from a list of numbers: each call consumes the
  head of the list (0 once the list is empty) and maps it into the requested range.
\<close>

definition next_draw :: "nat list \<Rightarrow> nat \<times> nat list" where
  "next_draw g = (case g of [] \<Rightarrow> (0, []) | x # xs \<Rightarrow> (x, xs))"

definition scripted :: "nat list random_ops" where
  "scripted =
     \<lparr> rnd_random = (\<lambda>g. let (x, g') = next_draw g in (of_nat (x mod 100) / 100, g')),
       rnd_randint = (\<lambda>a b g. let (x, g') = next_draw g
                               in (a + int (x mod nat (b - a + 1)), g')),
       rnd_randbelow = (\<lambda>n g. let (x, g') = next_draw g in (x mod n, g')),
       rnd_uniform = (\<lambda>a b g. let (x, g') = next_draw g
                               in (a + (b - a) * of_nat (x mod 100) / 100, g')),
       rnd_sample = (\<lambda>xs k g. let (x, g') = next_draw g in (take k (rotate x xs), g')),
       rnd_seed = (\<lambda>s. [nat \<bar>s\<bar>]) \<rparr>"

text \<open>
  Sample inputs: a state in which the incumbent leads by five points, the state of a new
  game, and the same game after the incumbent has spent all but one million.
\<close>

definition close_state :: State where
  "close_state =
     \<lparr> name = ''Pennsylvania'', abbrev = ''PA'', electoral_votes = 19,
       incumbent_support = 50, challenger_support = 45, lean = ''Lean Inc'',
       region = ''Northeast'' \<rparr>"

definition sample_state :: GameState where
  "sample_state = opening_state ''Player'' ''The Challenger''"

definition poor_state :: GameState where
  "poor_state = sample_state\<lparr> incumbent := update (incumbent sample_state) (- 14) 0 \<rparr>"

text \<open>
  A game in which the challenger's states sum to exactly 270: from the new game the
  challenger runs two ad campaigns in Pennsylvania, Michigan and Arizona, and the
  incumbent organises in Florida and Wisconsin.
\<close>

definition photo_finish :: GameState where
  "photo_finish =
     (let gs1 = fst (fst (execute_action scripted sample_state AD_CAMPAIGN False
                            (Some [''PA'', ''MI'', ''AZ'']) []));
          gs2 = fst (fst (execute_action scripted gs1 AD_CAMPAIGN False
                            (Some [''PA'', ''MI'', ''AZ'']) []));
          gs3 = fst (fst (execute_action scripted gs2 GRASSROOTS True
                            (Some [''FL'', ''WI'']) []))
      in gs3)"

text \<open>
  Engines holding these games, and two scripts for the generator of the module
  \<open>random\<close>: with the first every coin gives the tied state to the incumbent, with the
  second to the challenger.
\<close>

definition sample_engine :: "nat list GameEngine" where
  "sample_engine = new_game (engine_init scripted [] [] (Some 42)) ''Player'' ''The Challenger''"


definition coins_incumbent :: "nat list" where "coins_incumbent = [0, 0]"
definition coins_challenger :: "nat list" where "coins_challenger = [1, 1]"

subsection \<open>Vocabulary of the properties\<close>

text \<open>
  \<open>settled (k, s) (k', w)\<close>: the entry \<open>(k', w)\<close> of \<open>state_results\<close> settles the state
  \<open>s\<close> stored under \<open>k\<close>: same key, a winner that is one of the two candidates, and the
  candidate with strictly higher support when there is one. \<open>votes_for w sts res\<close> sums
  the electoral votes of the states of \<open>sts\<close> whose entry in \<open>res\<close> names \<open>w\<close>.
\<close>

definition settled :: "string \<times> State \<Rightarrow> string \<times> string \<Rightarrow> bool" where
  "settled ks kw = (fst kw = fst ks \<and> (snd kw = ''Incumbent'' \<or> snd kw = ''Challenger'') \<and>
      (incumbent_support (snd ks) > challenger_support (snd ks) \<longrightarrow> snd kw = ''Incumbent'') \<and>
      (challenger_support (snd ks) > incumbent_support (snd ks) \<longrightarrow> snd kw = ''Challenger''))"

definition votes_for :: "string \<Rightarrow> (string \<times> State) list \<Rightarrow> (string \<times> string) list \<Rightarrow> int" where
  "votes_for w sts res = sum_list (map2 (\<lambda>ks kw. if snd kw = w then electoral_votes (snd ks) else 0) sts res)"

text \<open>
  \<open>one_decimal x\<close>: rounding \<open>x\<close> to one decimal leaves it as it is. \<open>support_of\<close>
  reads the support of one of the two candidates. \<open>board_votes\<close> lists each key of the
  board with the electoral votes stored under it.
\<close>

definition one_decimal :: "real \<Rightarrow> bool" where
  "one_decimal x = (py_round1 x = x)"

definition support_of :: "bool \<Rightarrow> State \<Rightarrow> real" where
  "support_of for_incumbent s =
     (if for_incumbent then incumbent_support s else challenger_support s)"

definition board_votes :: "(string \<times> State) list \<Rightarrow> (string \<times> int) list" where
  "board_votes sts = map (\<lambda>(k, s). (k, electoral_votes s)) sts"

section \<open>Properties\<close>

subsection \<open>Rounding and the support update\<close>

lemma py_round1_int:
  obtains n :: int where "py_round1 x = of_int n / 10"
    and "\<bar>of_int n - x * 10\<bar> \<le> 1 / 2"
    and "of_int n - x * 10 = 1 / 2 \<longrightarrow> even n"
proof -
  define f where "f = \<lfloor>x * 10\<rfloor>"
  define d where "d = x * 10 - of_int f"
  have d0: "0 \<le> d" and d1: "d < 1"
    unfolding d_def f_def by linarith+
  have r: "py_round1 x = of_int (if d < 1/2 then f else if 1/2 < d then f + 1
                 else if even f then f else f + 1) / 10"
    unfolding py_round1_def Let_def d_def f_def ..
  show thesis
  proof (cases "d < 1/2")
    case True
    show thesis
    proof (rule that [of f])
      show "py_round1 x = of_int f / 10" using r True by simp
      show "\<bar>of_int f - x * 10\<bar> \<le> 1 / 2" using True d0 unfolding d_def by linarith
      show "of_int f - x * 10 = 1 / 2 \<longrightarrow> even f" using d0 unfolding d_def by linarith
    qed
  next
    case nl: False
    show thesis
    proof (cases "1/2 < d")
      case True
      show thesis
      proof (rule that [of "f + 1"])
        show "py_round1 x = of_int (f + 1) / 10" using r True nl by simp
        show "\<bar>of_int (f + 1) - x * 10\<bar> \<le> 1 / 2" using True d1 unfolding d_def by simp
        show "of_int (f + 1) - x * 10 = 1 / 2 \<longrightarrow> even (f + 1)"
          using True unfolding d_def by simp
      qed
    next
      case False
      with nl have dh: "d = 1/2" by linarith
      show thesis
      proof (cases "even f")
        case True
        show thesis
        proof (rule that [of f])
          show "py_round1 x = of_int f / 10" using r True dh by simp
          show "\<bar>of_int f - x * 10\<bar> \<le> 1 / 2" using dh unfolding d_def by linarith
          show "of_int f - x * 10 = 1 / 2 \<longrightarrow> even f" using True by simp
        qed
      next
        case odd: False
        show thesis
        proof (rule that [of "f + 1"])
          show "py_round1 x = of_int (f + 1) / 10" using r odd dh by simp
          show "\<bar>of_int (f + 1) - x * 10\<bar> \<le> 1 / 2" using dh unfolding d_def by simp
          show "of_int (f + 1) - x * 10 = 1 / 2 \<longrightarrow> even (f + 1)" using odd by simp
        qed
      qed
    qed
  qed
qed

lemma py_round1_near: "\<bar>py_round1 x - x\<bar> \<le> 1 / 20"
proof -
  obtain n :: int where n: "py_round1 x = of_int n / 10" "\<bar>of_int n - x * 10\<bar> \<le> 1 / 2"
    by (rule py_round1_int)
  have "\<bar>of_int n / 10 - x\<bar> \<le> 1 / 20" using n(2) by linarith
  then show ?thesis by (simp only: n(1))
qed





lemma apply_support_change_fields:
  assumes "rescaled_supports s ic cc = (a, b)"
  shows "incumbent_support (apply_support_change s ic cc) = py_round1 a"
    and "challenger_support (apply_support_change s ic cc) = py_round1 b"
    and "lean (apply_support_change s ic cc) = calculate_lean (a - b)"
  using assms by (simp_all add: apply_support_change_def)

lemma apply_support_change_same [simp]:
  "electoral_votes (apply_support_change s ic cc) = electoral_votes s"
  "abbrev (apply_support_change s ic cc) = abbrev s"
  "name (apply_support_change s ic cc) = name s"
  "region (apply_support_change s ic cc) = region s"
  by (simp_all add: apply_support_change_def split: prod.split)



text \<open>
  C8, as stated, fails: the lean is computed from the supports before they are rounded
  to one decimal, the stored supports after. With the incumbent at 50 and the challenger
  at 45, a change of \<open>-0.04\<close> gives the margin 4.96 and the lean Tossup, while the stored
  supports are 50.0 and 45.0, whose margin 5 is Lean Inc.
\<close>

theorem lean_mismatch:
  "lean (apply_support_change close_state (- (4 / 100)) 0)
     \<noteq> calculate_lean
         (incumbent_support (apply_support_change close_state (- (4 / 100)) 0)
            - challenger_support (apply_support_change close_state (- (4 / 100)) 0))"
  by (simp add: apply_support_change_def rescaled_supports_def close_state_def
      calculate_lean_def py_round1_def Let_def)

text \<open>
  C8, amended. The stored lean is the lean function of the margin of the clamped and
  rescaled supports before rounding; the stored supports are these values rounded. The
  two margins differ by at most 0.1, so the stored lean is the lean function of the
  stored margin whenever that margin is more than 0.1 away from each of the thresholds
  15, 5, -5 and -15.
\<close>

theorem lean_from_unrounded_margin:
  "lean (apply_support_change s ic cc)
     = calculate_lean (fst (rescaled_supports s ic cc) - snd (rescaled_supports s ic cc))
   \<and> incumbent_support (apply_support_change s ic cc) = py_round1 (fst (rescaled_supports s ic cc))
   \<and> challenger_support (apply_support_change s ic cc) = py_round1 (snd (rescaled_supports s ic cc))
   \<and> \<bar>margin (apply_support_change s ic cc)
        - (fst (rescaled_supports s ic cc) - snd (rescaled_supports s ic cc))\<bar> \<le> 1 / 10
   \<and> (1 / 10 < \<bar>margin (apply_support_change s ic cc) - 15\<bar> \<and>
      1 / 10 < \<bar>margin (apply_support_change s ic cc) - 5\<bar> \<and>
      1 / 10 < \<bar>margin (apply_support_change s ic cc) + 5\<bar> \<and>
      1 / 10 < \<bar>margin (apply_support_change s ic cc) + 15\<bar>
      \<longrightarrow> lean (apply_support_change s ic cc)
            = calculate_lean (margin (apply_support_change s ic cc)))"
proof -
  obtain a b where ab: "rescaled_supports s ic cc = (a, b)" by (cases "rescaled_supports s ic cc")
  note f = apply_support_change_fields [OF ab]
  define m where "m = margin (apply_support_change s ic cc)"
  have m: "m = py_round1 a - py_round1 b" unfolding m_def margin_def f ..
  have near: "\<bar>m - (a - b)\<bar> \<le> 1 / 10"
    using py_round1_near [of a] py_round1_near [of b] unfolding m by linarith
  have far: "calculate_lean (a - b) = calculate_lean m"
    if "1 / 10 < \<bar>m - 15\<bar>" "1 / 10 < \<bar>m - 5\<bar>" "1 / 10 < \<bar>m + 5\<bar>" "1 / 10 < \<bar>m + 15\<bar>"
  proof -
    have "(a - b \<ge> 15) = (m \<ge> 15)" "(a - b \<ge> 5) = (m \<ge> 5)"
         "(a - b > - 5) = (m > - 5)" "(a - b > - 15) = (m > - 15)"
      using near that by linarith+
    then show ?thesis unfolding calculate_lean_def by simp
  qed
  show ?thesis
    using near far unfolding m_def [symmetric] by (simp add: ab f)
qed

theorem lean_from_unrounded_margin_witness:
  "1 / 10 < \<bar>margin (apply_support_change close_state 3 0) - 15\<bar> \<and>
   1 / 10 < \<bar>margin (apply_support_change close_state 3 0) - 5\<bar> \<and>
   1 / 10 < \<bar>margin (apply_support_change close_state 3 0) + 5\<bar> \<and>
   1 / 10 < \<bar>margin (apply_support_change close_state 3 0) + 15\<bar> \<and>
   margin (apply_support_change close_state 3 0) = 8 \<and>
   lean (apply_support_change close_state 3 0)
     = calculate_lean (margin (apply_support_change close_state 3 0)) \<and>
   lean (apply_support_change close_state 3 0) = ''Lean Inc''"
proof -
  have m: "margin (apply_support_change close_state 3 0) = 8"
    by (simp add: margin_def apply_support_change_def rescaled_supports_def close_state_def
        py_round1_def Let_def)
  have l: "calculate_lean 8 = ''Lean Inc''" by (simp add: calculate_lean_def)
  have "1 / 10 < \<bar>margin (apply_support_change close_state 3 0) - 15\<bar> \<and>
        1 / 10 < \<bar>margin (apply_support_change close_state 3 0) - 5\<bar> \<and>
        1 / 10 < \<bar>margin (apply_support_change close_state 3 0) + 5\<bar> \<and>
        1 / 10 < \<bar>margin (apply_support_change close_state 3 0) + 15\<bar>
        \<longrightarrow> lean (apply_support_change close_state 3 0)
              = calculate_lean (margin (apply_support_change close_state 3 0))"
    using lean_from_unrounded_margin [of close_state 3 0] by blast
  then have "lean (apply_support_change close_state 3 0) = calculate_lean 8"
    unfolding m by simp
  then show ?thesis unfolding m l by simp
qed

subsection \<open>Evaluation on the sample inputs\<close>

lemmas eval_defs =
  sample_state_def opening_state_def create_initial_states_def INITIAL_STATES_CONFIG_def
  execute_action_def execute_targeted_action_def execute_opposition_research_def
  execute_national_action_def execute_fundraiser_def
  acting_player_def can_afford_def update_def momentum_modifier_def
  MIN_MOMENTUM_def MAX_MOMENTUM_def targets_loop_def all_states_loop_def
  apply_support_change_def rescaled_supports_def py_round1_def calculate_lean_def
  dict_keys_def dict_values_def Let_def

subsection \<open>The final result\<close>

lemma dict_set_fresh: "k \<notin> fst ` set d \<Longrightarrow> dict_set k v d = d @ [(k, v)]"
  by (induction d) auto

lemma assign_fold_sum:
  "fold (assign_step R) sts (i0, c0, r0, g0) = (i, c, r, g)
     \<Longrightarrow> i + c = i0 + c0 + sum_list (map electoral_votes (map snd sts))"
proof (induction sts arbitrary: i0 c0 r0 g0)
  case Nil
  then show ?case by simp
next
  case (Cons x sts)
  obtain k s where x: "x = (k, s)" by (cases x)
  obtain i1 c1 r1 g1 where st: "assign_step R (k, s) (i0, c0, r0, g0) = (i1, c1, r1, g1)"
    by (metis prod_cases4)
  have "i1 + c1 = i0 + c0 + electoral_votes s"
    using st by (auto simp: Let_def split: if_splits prod.splits)
  moreover have "i + c = i1 + c1 + sum_list (map electoral_votes (map snd sts))"
    using Cons.prems Cons.IH [of i1 c1 r1 g1] by (simp add: x st del: assign_step.simps)
  ultimately show ?case by (simp add: x)
qed

lemma assign_fold_settled:
  assumes "distinct (map fst (pre @ items))"
    and "list_all2 settled pre r0"
    and "i0 = votes_for ''Incumbent'' pre r0" "c0 = votes_for ''Challenger'' pre r0"
    and "fold (assign_step R) items (i0, c0, r0, g0) = (i, c, r, g)"
  shows "list_all2 settled (pre @ items) r \<and> i = votes_for ''Incumbent'' (pre @ items) r
         \<and> c = votes_for ''Challenger'' (pre @ items) r"
  using assms
proof (induction items arbitrary: pre i0 c0 r0 g0)
  case Nil
  then show ?case by auto
next
  case (Cons x items)
  obtain k s where x: "x = (k, s)" by (cases x)
  have len: "length pre = length r0" using Cons.prems(2) by (rule list_all2_lengthD)
  have keys: "map fst r0 = map fst pre"
    using Cons.prems(2) by (induction rule: list_all2_induct) (auto simp: settled_def)
  have "k \<notin> set (map fst pre)" using Cons.prems(1) unfolding x by auto
  then have fresh: "k \<notin> fst ` set r0" using keys by (metis set_map)
  obtain i1 c1 r1 g1 where st: "assign_step R (k, s) (i0, c0, r0, g0) = (i1, c1, r1, g1)"
    by (metis prod_cases4)
  obtain w where r1: "r1 = r0 @ [(k, w)]" and w: "settled (k, s) (k, w)"
    and i1: "i1 = i0 + (if w = ''Incumbent'' then electoral_votes s else 0)"
    and c1: "c1 = c0 + (if w = ''Challenger'' then electoral_votes s else 0)"
    using st fresh by (auto simp: Let_def settled_def dict_set_fresh split: if_splits prod.splits)
  have a: "list_all2 settled (pre @ [(k, s)]) r1"
    unfolding r1 using Cons.prems(2) w by (simp add: list_all2_appendI)
  have b: "i1 = votes_for ''Incumbent'' (pre @ [(k, s)]) r1"
    unfolding r1 i1 votes_for_def using len Cons.prems(3) by (simp add: votes_for_def)
  have c: "c1 = votes_for ''Challenger'' (pre @ [(k, s)]) r1"
    unfolding r1 c1 votes_for_def using len Cons.prems(4) by (simp add: votes_for_def)
  have d: "distinct (map fst ((pre @ [(k, s)]) @ items))" using Cons.prems(1) by (simp add: x)
  have e: "fold (assign_step R) items (i1, c1, r1, g1) = (i, c, r, g)"
    using Cons.prems(5) by (simp add: x st del: assign_step.simps)
  from Cons.IH [OF d a b c e] show ?case by (simp add: x)
qed


lemma photo_finish_board:
  "map (\<lambda>(k, s). (k, electoral_votes s, incumbent_support s, challenger_support s))
     (states photo_finish) =
   [(''CA'', 54, 58, 38), (''NY'', 28, 56, 40), (''IL'', 19, 55, 41), (''BC'', 127, 52, 44),
    (''FL'', 30, 99 / 2, 48), (''PA'', 19, 49, 51), (''GA'', 16, 47, 49),
    (''MI'', 15, 97 / 2, 103 / 2), (''AZ'', 11, 47, 52), (''WI'', 10, 99 / 2, 48),
    (''OH'', 17, 44, 52), (''NC'', 16, 45, 51), (''TX'', 40, 42, 54), (''RC'', 136, 38, 58)]"
  by (simp add: photo_finish_def eval_defs)

lemma assign_states_total:
  assumes "assign_states R (states gs) g = (i, c, res, g')"
  shows "i + c = total_electoral_votes gs"
  using assign_fold_sum [of R "states gs" 0 0 "[]" g i c res g'] assms
  by (simp add: assign_states_def total_electoral_votes_def dict_values_def)

lemma calculate_final_result_Inr:
  assumes "total_electoral_votes gs \<noteq> 0" and "assign_states R (states gs) g = (i, c, res, g')"
  shows "\<exists>r. calculate_final_result R gs g = Inr (r, g') \<and> incumbent_evs r = i \<and>
           challenger_evs r = c \<and> state_results r = res \<and> er_winner r = decide_winner i c \<and>
           er_margin r = i - c \<and> is_landslide r = (\<bar>i - c\<bar> \<ge> 100)"
  using assms
  by (simp add: calculate_final_result_def total_electoral_votes_def Let_def LANDSLIDE_MARGIN_def)

lemma photo_finish_total: "total_electoral_votes photo_finish = 538"
proof -
  have "map electoral_votes (map snd (states photo_finish)) =
        map (fst \<circ> snd) (map (\<lambda>(k, s). (k, electoral_votes s, incumbent_support s, challenger_support s))
     (states photo_finish))" by (simp add: comp_def case_prod_beta)
  then show ?thesis unfolding total_electoral_votes_def dict_values_def photo_finish_board by simp
qed

lemma photo_finish_result:
  "\<exists>r g'. calculate_final_result scripted photo_finish [] = Inr (r, g') \<and> challenger_evs r = 270 \<and> incumbent_evs r = 268"
  by (simp add: calculate_final_result_def assign_states_def photo_finish_def eval_defs)

text \<open>
  C4. On a board whose electoral votes do not sum to zero \<open>calculate_final_result\<close>
  returns a result. Every state's votes go to exactly one candidate (the two totals add
  up to the board's total; on a dictionary, each state has one entry in
  \<open>state_results\<close>, which names the candidate with strictly higher support when there
  is one, and the totals are the sums over these entries). The winner is the incumbent
  with 270 or more, else the challenger with 270 or more, else whoever has strictly
  more, else the incumbent. A challenger with exactly 270 wins whenever the incumbent is
  below 270, which is always so on a board of 538 votes.
\<close>

theorem final_result_winner:
  assumes "total_electoral_votes gs \<noteq> 0"
  shows "\<exists>r g'. calculate_final_result R gs g = Inr (r, g') \<and>
      incumbent_evs r + challenger_evs r = total_electoral_votes gs \<and>
      (distinct (dict_keys (states gs)) \<longrightarrow>
         list_all2 settled (states gs) (state_results r) \<and>
         incumbent_evs r = votes_for ''Incumbent'' (states gs) (state_results r) \<and>
         challenger_evs r = votes_for ''Challenger'' (states gs) (state_results r)) \<and>
      er_winner r =
        (if 270 \<le> incumbent_evs r then ''Incumbent''
         else if 270 \<le> challenger_evs r then ''Challenger''
         else if challenger_evs r < incumbent_evs r then ''Incumbent''
         else if incumbent_evs r < challenger_evs r then ''Challenger''
         else ''Incumbent'') \<and>
      (challenger_evs r = 270 \<and> incumbent_evs r < 270 \<longrightarrow> er_winner r = ''Challenger'') \<and>
      (challenger_evs r = 270 \<and> total_electoral_votes gs = 538
         \<longrightarrow> er_winner r = ''Challenger'')"
proof -
  obtain i c res g' where a: "assign_states R (states gs) g = (i, c, res, g')"
    by (metis prod_cases4)
  obtain r where r: "calculate_final_result R gs g = Inr (r, g')" "incumbent_evs r = i"
      "challenger_evs r = c" "state_results r = res" "er_winner r = decide_winner i c"
    using calculate_final_result_Inr [OF assms a] by blast
  have tot: "i + c = total_electoral_votes gs" by (rule assign_states_total [OF a])
  have st: "list_all2 settled (states gs) res \<and> i = votes_for ''Incumbent'' (states gs) res \<and>
            c = votes_for ''Challenger'' (states gs) res"
    if "distinct (dict_keys (states gs))"
    using assign_fold_settled [of "[]" "states gs" "[]" 0 0 R g i c res g'] that a
    by (simp add: assign_states_def dict_keys_def votes_for_def)
  have w: "decide_winner i c =
        (if 270 \<le> i then ''Incumbent''
         else if 270 \<le> c then ''Challenger''
         else if c < i then ''Incumbent''
         else if i < c then ''Challenger''
         else ''Incumbent'')"
    by (simp add: decide_winner_def VOTES_TO_WIN_def)
  have "incumbent_evs r + challenger_evs r = total_electoral_votes gs" using tot r by simp
  moreover have "distinct (dict_keys (states gs)) \<longrightarrow>
         list_all2 settled (states gs) (state_results r) \<and>
         incumbent_evs r = votes_for ''Incumbent'' (states gs) (state_results r) \<and>
         challenger_evs r = votes_for ''Challenger'' (states gs) (state_results r)"
    using st r by simp
  moreover have "er_winner r =
        (if 270 \<le> incumbent_evs r then ''Incumbent''
         else if 270 \<le> challenger_evs r then ''Challenger''
         else if challenger_evs r < incumbent_evs r then ''Incumbent''
         else if incumbent_evs r < challenger_evs r then ''Challenger''
         else ''Incumbent'')"
    using w r by simp
  moreover have "challenger_evs r = 270 \<and> incumbent_evs r < 270 \<longrightarrow> er_winner r = ''Challenger''"
    using w r by simp
  moreover have "challenger_evs r = 270 \<and> total_electoral_votes gs = 538
         \<longrightarrow> er_winner r = ''Challenger''"
    using w r tot by auto
  ultimately show ?thesis using r(1) by blast
qed

theorem final_result_winner_witness:
  "total_electoral_votes photo_finish \<noteq> 0 \<and>
   total_electoral_votes photo_finish = 538 \<and>
   distinct (dict_keys (states photo_finish)) \<and>
   (\<exists>r g'. calculate_final_result scripted photo_finish [] = Inr (r, g') \<and>
            challenger_evs r = 270 \<and> incumbent_evs r = 268 \<and>
            list_all2 settled (states photo_finish) (state_results r) \<and>
            challenger_evs r = votes_for ''Challenger'' (states photo_finish) (state_results r) \<and>
            er_winner r = ''Challenger'')"
proof -
  have tot: "total_electoral_votes photo_finish \<noteq> 0" by (simp add: photo_finish_total)
  have "map fst (states photo_finish)
          = map fst (map (\<lambda>(k, s). (k, electoral_votes s, incumbent_support s,
                                      challenger_support s)) (states photo_finish))"
    by (simp add: comp_def case_prod_beta)
  then have keys: "distinct (dict_keys (states photo_finish))"
    unfolding dict_keys_def photo_finish_board by simp
  obtain r g' where r: "calculate_final_result scripted photo_finish [] = Inr (r, g')"
      "challenger_evs r = 270" "incumbent_evs r = 268"
    using photo_finish_result by blast
  obtain r' g'' where r': "calculate_final_result scripted photo_finish [] = Inr (r', g'')"
      "distinct (dict_keys (states photo_finish)) \<longrightarrow>
         list_all2 settled (states photo_finish) (state_results r') \<and>
         incumbent_evs r' = votes_for ''Incumbent'' (states photo_finish) (state_results r') \<and>
         challenger_evs r' = votes_for ''Challenger'' (states photo_finish) (state_results r')"
      "challenger_evs r' = 270 \<and> total_electoral_votes photo_finish = 538
         \<longrightarrow> er_winner r' = ''Challenger''"
    using final_result_winner [OF tot, of scripted "[]"] by blast
  have same: "r' = r" using r(1) r'(1) by simp
  have "er_winner r = ''Challenger''" using r'(3) r(2) photo_finish_total unfolding same by simp
  moreover have "list_all2 settled (states photo_finish) (state_results r) \<and>
      challenger_evs r = votes_for ''Challenger'' (states photo_finish) (state_results r)"
    using r'(2) keys unfolding same by simp
  ultimately show ?thesis using tot photo_finish_total keys r by blast
qed

subsection \<open>Recomputing the result after the game has ended\<close>






lemma sample_engine_state: "engine_game_state sample_engine = Some sample_state"
  by (simp add: sample_engine_def new_game_def sample_state_def)

lemma sample_state_total: "total_electoral_votes sample_state \<noteq> 0"
  by (simp add: total_electoral_votes_def eval_defs)

lemma sample_result_incumbent:
  "\<exists>r g. calculate_final_result scripted sample_state coins_incumbent = Inr (r, g) \<and>
         er_winner r = ''Incumbent''"
proof -
  obtain res g where a:
    "assign_states scripted (states sample_state) coins_incumbent = (302, 236, res, g)"
    by (simp add: assign_states_def choice_def scripted_def next_draw_def eval_defs
        coins_incumbent_def)
  obtain r where "calculate_final_result scripted sample_state coins_incumbent = Inr (r, g)"
      "er_winner r = decide_winner 302 236"
    using calculate_final_result_Inr [OF sample_state_total a] by blast
  then show ?thesis by (simp add: decide_winner_def VOTES_TO_WIN_def)
qed

lemma sample_result_challenger:
  "\<exists>r g. calculate_final_result scripted sample_state coins_challenger = Inr (r, g) \<and>
         er_winner r = ''Challenger''"
proof -
  obtain res g where a:
    "assign_states scripted (states sample_state) coins_challenger = (262, 276, res, g)"
    by (simp add: assign_states_def choice_def scripted_def next_draw_def eval_defs
        coins_challenger_def)
  obtain r where "calculate_final_result scripted sample_state coins_challenger = Inr (r, g)"
      "er_winner r = decide_winner 262 276"
    using calculate_final_result_Inr [OF sample_state_total a] by blast
  then show ?thesis by (simp add: decide_winner_def VOTES_TO_WIN_def)
qed



subsection \<open>The seed and the coins of the final result\<close>

text \<open>
  C3 does not hold of the code. The seed given to \<open>GameEngine\<close> reaches the generators
  of the action processor and of the event generator; the coins that settle tied states
  come from the generator of the module \<open>random\<close>, which no seed of the engine touches.
  Two engines built with the seed 42 are equal and receive the same two calls,
  \<open>new_game\<close> and \<open>end_game\<close>; one declares the incumbent the winner and the other the
  challenger, according to the state of that generator.
\<close>

theorem seeded_engines_disagree:
  "engine_init scripted [5] [6] (Some 42) = engine_init scripted [7] [8] (Some 42) \<and>
   (\<exists>e1 g1 gs1 e2 g2 gs2.
      end_game scripted
        (new_game (engine_init scripted [5] [6] (Some 42)) ''Player'' ''The Challenger'')
        coins_incumbent = Inr (e1, g1) \<and>
      end_game scripted
        (new_game (engine_init scripted [7] [8] (Some 42)) ''Player'' ''The Challenger'')
        coins_challenger = Inr (e2, g2) \<and>
      engine_game_state e1 = Some gs1 \<and> engine_game_state e2 = Some gs2 \<and>
      winner gs1 = Some ''Incumbent'' \<and> winner gs2 = Some ''Challenger'')"
proof -
  have i: "engine_init scripted [5] [6] (Some 42) = engine_init scripted [] [] (Some 42)"
          "engine_init scripted [7] [8] (Some 42) = engine_init scripted [] [] (Some 42)"
    by (simp_all add: engine_init_def)
  obtain r1 g1 where r1: "calculate_final_result scripted sample_state coins_incumbent = Inr (r1, g1)"
    and w1: "er_winner r1 = ''Incumbent''"
    using sample_result_incumbent by blast
  obtain r2 g2 where r2: "calculate_final_result scripted sample_state coins_challenger = Inr (r2, g2)"
    and w2: "er_winner r2 = ''Challenger''"
    using sample_result_challenger by blast
  have "end_game scripted sample_engine coins_incumbent
          = Inr (sample_engine\<lparr> engine_game_state :=
                   Some (GameState_end_game sample_state ''Incumbent'') \<rparr>, g1)"
    by (simp add: end_game_def sample_engine_state r1 w1)
  moreover have "end_game scripted sample_engine coins_challenger
          = Inr (sample_engine\<lparr> engine_game_state :=
                   Some (GameState_end_game sample_state ''Challenger'') \<rparr>, g2)"
    by (simp add: end_game_def sample_engine_state r2 w2)
  moreover have "winner (GameState_end_game sample_state ''Incumbent'') = Some ''Incumbent''"
    "winner (GameState_end_game sample_state ''Challenger'') = Some ''Challenger''"
    by (simp_all add: GameState_end_game_def)
  ultimately show ?thesis
    unfolding i sample_engine_def [symmetric] by auto
qed

subsection \<open>The affordability check\<close>

text \<open>
  C1. If the acting player's funds are strictly below the cost of the action,
  \<open>execute_action\<close> returns the game state it was given (so funds, momentum and the
  support of every state are the same), draws no random number, and reports a result
  with \<open>success\<close> false, nothing spent, nothing raised, no support change and a momentum
  change of zero.
\<close>

theorem execute_action_unaffordable:
  assumes "funds (if is_inc then incumbent gs else challenger gs)
             < cost (get_action_definition atype)"
  shows "case execute_action R gs atype is_inc targets rng of
           ((gs', res), rng') \<Rightarrow>
             gs' = gs \<and> rng' = rng \<and> \<not> success res \<and> funds_spent res = 0 \<and>
             funds_raised res = 0 \<and> support_changes res = [] \<and>
             res_momentum_change res = 0 \<and> affected_states res = []"
  using assms by (simp add: execute_action_def acting_player_def can_afford_def Let_def)

theorem execute_action_unaffordable_witness:
  "funds (if True then incumbent poor_state else challenger poor_state)
     < cost (get_action_definition RALLY)
   \<and> (case execute_action scripted poor_state RALLY True (Some [''FL'']) [7] of
         ((gs', res), rng') \<Rightarrow>
           gs' = poor_state \<and> rng' = [7] \<and> \<not> success res \<and> funds_spent res = 0 \<and>
           funds_raised res = 0 \<and> support_changes res = [] \<and>
           res_momentum_change res = 0 \<and> affected_states res = [])"
proof -
  have broke: "funds (if True then incumbent poor_state else challenger poor_state)
                 < cost (get_action_definition RALLY)"
    by (simp add: poor_state_def sample_state_def opening_state_def update_def)
  from execute_action_unaffordable
         [where is_inc = True and gs = poor_state and atype = RALLY and R = scripted
            and targets = "Some [''FL'']" and rng = "[7]", OF broke] broke
  show ?thesis by simp
qed

subsection \<open>The strategy of the AI opponent\<close>

lemma tally_fold:
  "fold (\<lambda>state (inc_evs, chl_evs, tied_evs).
           if incumbent_support state > challenger_support state
           then (inc_evs + electoral_votes state, chl_evs, tied_evs)
           else if challenger_support state > incumbent_support state
           then (inc_evs, chl_evs + electoral_votes state, tied_evs)
           else (inc_evs, chl_evs, tied_evs + electoral_votes state)) vs (a, b, c)
   = (a + sum_list (map electoral_votes
            (filter (\<lambda>s. incumbent_support s > challenger_support s) vs)),
      b + sum_list (map electoral_votes
            (filter (\<lambda>s. challenger_support s > incumbent_support s) vs)),
      c + sum_list (map electoral_votes
            (filter (\<lambda>s. incumbent_support s = challenger_support s) vs)))"
  by (induction vs arbitrary: a b c) auto

lemma calculate_evs_eq:
  "calculate_evs gs =
     (incumbent_electoral_votes gs, challenger_electoral_votes gs, tied_electoral_votes gs)"
  by (simp add: calculate_evs_def tally_fold incumbent_electoral_votes_def
      challenger_electoral_votes_def tied_electoral_votes_def)

text \<open>
  C7. \<open>determine_strategy\<close> answers FUNDRAISING when the challenger's funds are below 2.
  Otherwise it compares the challenger's electoral votes minus the incumbent's, both
  counted over the states with strictly higher support: AGGRESSIVE at \<open>-30\<close> or less,
  DEFENSIVE at \<open>30\<close> or more, BALANCED in between.
\<close>

theorem determine_strategy_cases:
  "determine_strategy gs =
     (if funds (challenger gs) < 2 then FUNDRAISING
      else if challenger_electoral_votes gs - incumbent_electoral_votes gs \<le> - 30
           then AGGRESSIVE
      else if challenger_electoral_votes gs - incumbent_electoral_votes gs \<ge> 30
           then DEFENSIVE
      else BALANCED)"
  by (simp add: determine_strategy_def calculate_evs_eq LOW_FUNDS_THRESHOLD_def
      LOSING_THRESHOLD_def WINNING_THRESHOLD_def)

lemma sample_state_votes:
  "incumbent_electoral_votes sample_state = 262"
  "challenger_electoral_votes sample_state = 236"
  "tied_electoral_votes sample_state = 40"
  by (simp_all add: incumbent_electoral_votes_def challenger_electoral_votes_def
      tied_electoral_votes_def sample_state_def opening_state_def create_initial_states_def
      INITIAL_STATES_CONFIG_def dict_values_def)

theorem determine_strategy_cases_witness:
  "determine_strategy sample_state = BALANCED"
  using determine_strategy_cases [of sample_state]
  by (simp add: sample_state_votes) (simp add: sample_state_def opening_state_def)

subsection \<open>Iterating over the states\<close>

lemma dict_set_at:
  "k \<notin> fst ` set xs \<Longrightarrow> dict_set k v (xs @ (k, w) # ys) = xs @ (k, v) # ys"
  by (induction xs) auto

lemma map_of_dict_set:
  "map_of (dict_set k v d) k' = (if k' = k then Some v else map_of d k')"
  by (induction d) auto

lemma dict_set_keys:
  "map_of d k = Some s \<Longrightarrow> map fst (dict_set k v d) = map fst d"
  by (induction d) (auto split: if_splits)

lemma dict_set_votes:
  "map_of d k = Some s \<Longrightarrow> electoral_votes v = electoral_votes s
     \<Longrightarrow> map (\<lambda>(k, s). (k, electoral_votes s)) (dict_set k v d)
         = map (\<lambda>(k, s). (k, electoral_votes s)) d"
  by (induction d) (auto split: if_splits)

lemma all_states_fold:
  assumes "distinct (map fst (pre @ items))"
  shows "fold (all_states_step f e) items
           (map (\<lambda>(k, s). (k, f s)) pre @ items, map (\<lambda>(k, s). (k, e)) pre)
         = (map (\<lambda>(k, s). (k, f s)) (pre @ items), map (\<lambda>(k, s). (k, e)) (pre @ items))"
  using assms
proof (induction items arbitrary: pre)
  case Nil
  then show ?case by simp
next
  case (Cons x items)
  obtain k s where x: "x = (k, s)" by (cases x)
  have notin: "k \<notin> fst ` set pre" using Cons.prems by (auto simp: x)
  then have n1: "k \<notin> fst ` set (map (\<lambda>(k, s). (k, f s)) pre)"
    and n2: "k \<notin> fst ` set (map (\<lambda>(k, s). (k, e)) pre)"
    by (auto simp: image_iff)
  have s1: "dict_set k (f s) (map (\<lambda>(k, s). (k, f s)) pre @ (k, s) # items)
              = map (\<lambda>(k, s). (k, f s)) (pre @ [(k, s)]) @ items"
    using dict_set_at [OF n1] by simp
  have s2: "dict_set k e (map (\<lambda>(k, s). (k, e)) pre) = map (\<lambda>(k, s). (k, e)) (pre @ [(k, s)])"
    using dict_set_fresh [OF n2] by simp
  have d: "distinct (map fst ((pre @ [(k, s)]) @ items))" using Cons.prems by (simp add: x)
  show ?case
    using Cons.IH [OF d] by (simp add: x s1 s2 del: map_append)
qed

lemma all_states_loop_map:
  assumes "distinct (map fst sts)"
  shows "all_states_loop f e sts = (map (\<lambda>(k, s). (k, f s)) sts, map (\<lambda>(k, s). (k, e)) sts)"
  using all_states_fold [of "[]" sts f e] assms by (simp add: all_states_loop_def)

lemma targets_fold_all:
  assumes "fold (targets_step f e) ts (ns, ch) = (ns', ch')"
  shows "map fst ns' = map fst ns \<and>
         map_of ns' k = map_option (f ^^ count_list ts k) (map_of ns k) \<and>
         map_of ch' k = (if k \<in> set ts \<and> map_of ns k \<noteq> None then Some e else map_of ch k)"
  using assms
proof (induction ts arbitrary: ns ch)
  case Nil
  then show ?case by (simp add: option.map_ident)
next
  case (Cons t ts)
  obtain ns1 ch1 where st: "targets_step f e t (ns, ch) = (ns1, ch1)"
    by (cases "targets_step f e t (ns, ch)")
  have keys1: "map fst ns1 = map fst ns"
    using st by (auto simp: dict_set_keys split: option.splits)
  have look1: "map_of ns1 k = (if k = t then map_option f (map_of ns k) else map_of ns k)"
    using st by (auto simp: map_of_dict_set split: option.splits)
  have ch1: "map_of ch1 k = (if k = t \<and> map_of ns k \<noteq> None then Some e else map_of ch k)"
    using st by (auto simp: map_of_dict_set split: option.splits)
  have dom1: "(map_of ns1 k \<noteq> None) = (map_of ns k \<noteq> None)"
    unfolding look1 by simp
  have "fold (targets_step f e) ts (ns1, ch1) = (ns', ch')"
    using Cons.prems by (simp add: st del: targets_step.simps)
  from Cons.IH [OF this]
  have a: "map fst ns' = map fst ns1"
    and b: "map_of ns' k = map_option (f ^^ count_list ts k) (map_of ns1 k)"
    and c: "map_of ch' k = (if k \<in> set ts \<and> map_of ns1 k \<noteq> None then Some e else map_of ch1 k)"
    by simp_all
  have "map_of ns' k = map_option (f ^^ count_list (t # ts) k) (map_of ns k)"
    unfolding b look1 by (cases "map_of ns k") (auto simp: funpow_swap1)
  moreover have "map_of ch' k = (if k \<in> set (t # ts) \<and> map_of ns k \<noteq> None then Some e else map_of ch k)"
    unfolding c ch1 dom1 by auto
  ultimately show ?case using a keys1 by simp
qed

lemma targets_fold_votes:
  assumes "fold (targets_step f e) ts (ns, ch) = (ns', ch')"
    and "\<And>s. electoral_votes (f s) = electoral_votes s"
  shows "map (\<lambda>(k, s). (k, electoral_votes s)) ns' = map (\<lambda>(k, s). (k, electoral_votes s)) ns"
  using assms(1)
proof (induction ts arbitrary: ns ch)
  case Nil
  then show ?case by simp
next
  case (Cons t ts)
  obtain ns1 ch1 where st: "targets_step f e t (ns, ch) = (ns1, ch1)" by (cases "targets_step f e t (ns, ch)")
  have v1: "map (\<lambda>(k, s). (k, electoral_votes s)) ns1 = map (\<lambda>(k, s). (k, electoral_votes s)) ns"
    using st assms(2) by (auto simp: dict_set_votes split: option.splits)
  have "fold (targets_step f e) ts (ns1, ch1) = (ns', ch')"
    using Cons.prems by (simp add: st del: targets_step.simps)
  from Cons.IH [OF this] v1 show ?case by simp
qed

subsection \<open>Opposition research\<close>

lemma py_round1_tenths: "py_round1 (of_int n / 10) = of_int n / 10"
  by (simp add: py_round1_def)

lemma one_decimal_shift:
  assumes "one_decimal x"
  shows "one_decimal (x - 5 / 2)"
proof -
  obtain n :: int where n: "py_round1 x = of_int n / 10" using py_round1_int [of x] by blast
  then have "x = of_int n / 10" using assms by (simp add: one_decimal_def)
  then have "x - 5 / 2 = of_int (n - 25) / 10" by simp
  then show ?thesis unfolding one_decimal_def by (simp only: py_round1_tenths)
qed

lemma apply_support_change_exact:
  assumes "one_decimal (incumbent_support s)" "one_decimal (challenger_support s)"
    and "0 \<le> support_of actor s" "5 / 2 \<le> support_of (\<not> actor) s"
    and "incumbent_support s + challenger_support s - 5 / 2 \<le> 100"
  shows "support_of (\<not> actor)
           (if actor then apply_support_change s 0 (- (5 / 2))
            else apply_support_change s (- (5 / 2)) 0)
         = support_of (\<not> actor) s - 5 / 2
       \<and> support_of actor
           (if actor then apply_support_change s 0 (- (5 / 2))
            else apply_support_change s (- (5 / 2)) 0)
         = support_of actor s"
proof (cases actor)
  case True
  have r: "rescaled_supports s 0 (- (5 / 2)) = (incumbent_support s, challenger_support s - 5 / 2)"
    using assms(3-5) True by (simp add: rescaled_supports_def support_of_def Let_def)
  have "py_round1 (challenger_support s - 5 / 2) = challenger_support s - 5 / 2"
    using one_decimal_shift [OF assms(2)] by (simp add: one_decimal_def)
  then show ?thesis
    using True assms(1) by (simp add: apply_support_change_fields [OF r] support_of_def one_decimal_def)
next
  case False
  have r: "rescaled_supports s (- (5 / 2)) 0 = (incumbent_support s - 5 / 2, challenger_support s)"
    using assms(3-5) False by (simp add: rescaled_supports_def support_of_def Let_def)
  have "py_round1 (incumbent_support s - 5 / 2) = incumbent_support s - 5 / 2"
    using one_decimal_shift [OF assms(1)] by (simp add: one_decimal_def)
  then show ?thesis
    using False assms(2) by (simp add: apply_support_change_fields [OF r] support_of_def one_decimal_def)
qed

lemma update_spend:
  assumes "c \<le> funds p"
  shows "update p (- c) m = p\<lparr> funds := funds p - c,
                               momentum := max (- 100) (min 100 (momentum p + m)) \<rparr>"
  using assms by (simp add: update_def MIN_MOMENTUM_def MAX_MOMENTUM_def)

lemma execute_opposition_research_eq:
  assumes "distinct (map fst (states gs))"
  shows "execute_opposition_research gs is_inc d =
     (if is_inc
      then (gs\<lparr> incumbent := update (incumbent gs) (- cost d) (momentum_change d),
                 states := map (\<lambda>(k, s). (k, apply_support_change s 0
                                  (base_support_change d * momentum_modifier (incumbent gs))))
                             (states gs) \<rparr>,
            \<lparr> res_action_type = OPPOSITION_RESEARCH, success = True,
              message = OppositionDamage \<bar>base_support_change d * momentum_modifier (incumbent gs)\<bar>,
              funds_spent = cost d, funds_raised = 0,
              support_changes = map (\<lambda>(k, s). (k, base_support_change d * momentum_modifier (incumbent gs)))
                                  (states gs),
              res_momentum_change = momentum_change d,
              affected_states = map fst (states gs) \<rparr>)
      else (gs\<lparr> challenger := update (challenger gs) (- cost d) (momentum_change d),
                 states := map (\<lambda>(k, s). (k, apply_support_change s
                                  (base_support_change d * momentum_modifier (challenger gs)) 0))
                             (states gs) \<rparr>,
            \<lparr> res_action_type = OPPOSITION_RESEARCH, success = True,
              message = OppositionDamage \<bar>base_support_change d * momentum_modifier (challenger gs)\<bar>,
              funds_spent = cost d, funds_raised = 0,
              support_changes = map (\<lambda>(k, s). (k, base_support_change d * momentum_modifier (challenger gs)))
                                  (states gs),
              res_momentum_change = momentum_change d,
              affected_states = map fst (states gs) \<rparr>))"
  using assms
  by (cases is_inc)
     (simp_all add: execute_opposition_research_def acting_player_def all_states_loop_map
        dict_keys_def Let_def comp_def case_prod_beta)

lemma opposition_states_exact:
  "list_all2
     (\<lambda>(k, s) (k', s').
        k' = k \<and>
        (one_decimal (incumbent_support s) \<and> one_decimal (challenger_support s) \<and>
         0 \<le> support_of actor s \<and> 5 / 2 \<le> support_of (\<not> actor) s \<and>
         incumbent_support s + challenger_support s - 5 / 2 \<le> 100
         \<longrightarrow> support_of (\<not> actor) s' = support_of (\<not> actor) s - 5 / 2 \<and>
              support_of actor s' = support_of actor s))
     sts
     (map (\<lambda>(k, s). (k, if actor then apply_support_change s 0 (- (5 / 2))
                         else apply_support_change s (- (5 / 2)) 0)) sts)"
  unfolding list_all2_map2 list_all2_same
  using apply_support_change_exact [of _ actor] by (auto simp: case_prod_beta)

text \<open>
  C6. For a player who can afford it and whose momentum lies in \<open>[-100, 100]\<close>, on a
  dictionary of states, Opposition Research succeeds and draws no random number; the
  actor pays 3 and keeps the momentum, the opponent is untouched; with
  \<open>effect = -2.5 * momentum_modifier\<close>, every state is replaced by
  \<open>apply_support_change\<close> of the effect on the opponent's side, and \<open>effect\<close> is
  recorded for every key. At momentum 0 the modifier is 1, and in every state whose
  supports are one-decimal values that the clamp and the rescaling leave alone, the
  opponent's support falls by exactly 2.5 and the actor's stays.
\<close>

theorem opposition_research_effect:
  assumes afford: "cost (get_action_definition OPPOSITION_RESEARCH) \<le> funds (acting_player gs is_inc)"
    and mom: "- 100 \<le> momentum (acting_player gs is_inc)" "momentum (acting_player gs is_inc) \<le> 100"
    and keys: "distinct (dict_keys (states gs))"
  shows "case execute_action R gs OPPOSITION_RESEARCH is_inc targets rng of
     ((gs', res), rng') \<Rightarrow>
       rng' = rng \<and> success res \<and> funds_spent res = 3 \<and> funds_raised res = 0 \<and>
       res_momentum_change res = 0 \<and>
       acting_player gs' is_inc
         = (acting_player gs is_inc)\<lparr> funds := funds (acting_player gs is_inc) - 3 \<rparr> \<and>
       acting_player gs' (\<not> is_inc) = acting_player gs (\<not> is_inc) \<and>
       states gs' =
         map (\<lambda>(k, s).
                (k, if is_inc
                    then apply_support_change s 0
                           (- (5 / 2) * momentum_modifier (acting_player gs is_inc))
                    else apply_support_change s
                           (- (5 / 2) * momentum_modifier (acting_player gs is_inc)) 0))
             (states gs) \<and>
       support_changes res =
         map (\<lambda>(k, s). (k, - (5 / 2) * momentum_modifier (acting_player gs is_inc)))
             (states gs) \<and>
       affected_states res = dict_keys (states gs) \<and>
       (momentum (acting_player gs is_inc) = 0 \<longrightarrow>
          momentum_modifier (acting_player gs is_inc) = 1 \<and>
          list_all2
            (\<lambda>(k, s) (k', s').
               k' = k \<and>
               (one_decimal (incumbent_support s) \<and> one_decimal (challenger_support s) \<and>
                0 \<le> support_of is_inc s \<and> 5 / 2 \<le> support_of (\<not> is_inc) s \<and>
                incumbent_support s + challenger_support s - 5 / 2 \<le> 100
                \<longrightarrow> support_of (\<not> is_inc) s' = support_of (\<not> is_inc) s - 5 / 2 \<and>
                     support_of is_inc s' = support_of is_inc s))
            (states gs) (states gs'))"
proof -
  define p where "p = acting_player gs is_inc"
  define eff where "eff = - (5 / 2) * momentum_modifier p"
  define F where "F = (\<lambda>s. if is_inc then apply_support_change s 0 eff
                           else apply_support_change s eff 0)"
  define gs' where "gs' = (if is_inc
       then gs\<lparr> incumbent := p\<lparr> funds := funds p - 3 \<rparr>,
                 states := map (\<lambda>(k, s). (k, F s)) (states gs) \<rparr>
       else gs\<lparr> challenger := p\<lparr> funds := funds p - 3 \<rparr>,
                 states := map (\<lambda>(k, s). (k, F s)) (states gs) \<rparr>)"
  define res where "res =
        \<lparr> res_action_type = OPPOSITION_RESEARCH, success = True,
          message = OppositionDamage \<bar>eff\<bar>,
          funds_spent = 3, funds_raised = 0,
          support_changes = map (\<lambda>(k, s). (k, eff)) (states gs),
          res_momentum_change = 0,
          affected_states = dict_keys (states gs) \<rparr>"
  have c3: "cost (get_action_definition OPPOSITION_RESEARCH) = 3" by simp
  have up: "update p (- 3) 0 = p\<lparr> funds := funds p - 3 \<rparr>"
    using afford mom unfolding p_def [symmetric] c3 by (simp add: update_spend)
  have ex: "execute_action R gs OPPOSITION_RESEARCH is_inc targets rng = ((gs', res), rng)"
  proof (cases is_inc)
    case True
    then show ?thesis
      using afford keys up
      by (simp add: execute_action_def can_afford_def execute_opposition_research_eq
          gs'_def res_def F_def eff_def p_def dict_keys_def acting_player_def Let_def)
  next
    case False
    then show ?thesis
      using afford keys up
      by (simp add: execute_action_def can_afford_def execute_opposition_research_eq
          gs'_def res_def F_def eff_def p_def dict_keys_def acting_player_def Let_def)
  qed
  have f1: "success res" "funds_spent res = 3" "funds_raised res = 0"
    "res_momentum_change res = 0" "affected_states res = dict_keys (states gs)"
    by (simp_all add: res_def)
  have f2: "acting_player gs' is_inc
         = (acting_player gs is_inc)\<lparr> funds := funds (acting_player gs is_inc) - 3 \<rparr>"
    by (simp add: gs'_def acting_player_def p_def)
  have f3: "acting_player gs' (\<not> is_inc) = acting_player gs (\<not> is_inc)"
    by (simp add: gs'_def acting_player_def)
  have sts: "states gs' = map (\<lambda>(k, s). (k, F s)) (states gs)"
    by (simp add: gs'_def)
  have f4: "states gs' =
         map (\<lambda>(k, s).
                (k, if is_inc
                    then apply_support_change s 0
                           (- (5 / 2) * momentum_modifier (acting_player gs is_inc))
                    else apply_support_change s
                           (- (5 / 2) * momentum_modifier (acting_player gs is_inc)) 0))
             (states gs)"
    unfolding sts F_def eff_def p_def ..
  have f5: "support_changes res =
         map (\<lambda>(k, s). (k, - (5 / 2) * momentum_modifier (acting_player gs is_inc)))
             (states gs)"
    unfolding res_def eff_def p_def by simp
  have f6: "momentum (acting_player gs is_inc) = 0 \<longrightarrow>
          momentum_modifier (acting_player gs is_inc) = 1 \<and>
          list_all2
            (\<lambda>(k, s) (k', s').
               k' = k \<and>
               (one_decimal (incumbent_support s) \<and> one_decimal (challenger_support s) \<and>
                0 \<le> support_of is_inc s \<and> 5 / 2 \<le> support_of (\<not> is_inc) s \<and>
                incumbent_support s + challenger_support s - 5 / 2 \<le> 100
                \<longrightarrow> support_of (\<not> is_inc) s' = support_of (\<not> is_inc) s - 5 / 2 \<and>
                     support_of is_inc s' = support_of is_inc s))
            (states gs) (states gs')"
  proof
    assume m0: "momentum (acting_player gs is_inc) = 0"
    have one: "momentum_modifier p = 1" using m0 by (simp add: momentum_modifier_def p_def)
    then have e: "eff = - (5 / 2)" by (simp add: eff_def)
    have Fe: "F = (\<lambda>s. if is_inc then apply_support_change s 0 (- (5 / 2))
                     else apply_support_change s (- (5 / 2)) 0)"
      unfolding F_def e ..
    have "list_all2
            (\<lambda>(k, s) (k', s').
               k' = k \<and>
               (one_decimal (incumbent_support s) \<and> one_decimal (challenger_support s) \<and>
                0 \<le> support_of is_inc s \<and> 5 / 2 \<le> support_of (\<not> is_inc) s \<and>
                incumbent_support s + challenger_support s - 5 / 2 \<le> 100
                \<longrightarrow> support_of (\<not> is_inc) s' = support_of (\<not> is_inc) s - 5 / 2 \<and>
                     support_of is_inc s' = support_of is_inc s))
            (states gs) (states gs')"
      unfolding sts Fe by (rule opposition_states_exact)
    then show "momentum_modifier (acting_player gs is_inc) = 1 \<and>
          list_all2
            (\<lambda>(k, s) (k', s').
               k' = k \<and>
               (one_decimal (incumbent_support s) \<and> one_decimal (challenger_support s) \<and>
                0 \<le> support_of is_inc s \<and> 5 / 2 \<le> support_of (\<not> is_inc) s \<and>
                incumbent_support s + challenger_support s - 5 / 2 \<le> 100
                \<longrightarrow> support_of (\<not> is_inc) s' = support_of (\<not> is_inc) s - 5 / 2 \<and>
                     support_of is_inc s' = support_of is_inc s))
            (states gs) (states gs')"
      using one unfolding p_def by blast
  qed
  show ?thesis
    unfolding ex prod.case
    by (intro conjI refl f1 f2 f3 f4 f5 f6)
qed

theorem opposition_research_effect_witness:
  "cost (get_action_definition OPPOSITION_RESEARCH) \<le> funds (acting_player sample_state True) \<and>
   - 100 \<le> momentum (acting_player sample_state True) \<and>
   momentum (acting_player sample_state True) \<le> 100 \<and>
   distinct (dict_keys (states sample_state)) \<and>
   (case execute_action scripted sample_state OPPOSITION_RESEARCH True None [] of
      ((gs', res), rng') \<Rightarrow>
        success res \<and> funds_spent res = 3 \<and> res_momentum_change res = 0 \<and>
        affected_states res = dict_keys (states sample_state) \<and>
        funds (incumbent gs') = 12 \<and> momentum (incumbent gs') = 0 \<and>
        challenger gs' = challenger sample_state \<and>
        list_all (\<lambda>kv. snd kv = - (5 / 2)) (support_changes res) \<and>
        map (\<lambda>(k, s). (k, incumbent_support s, challenger_support s)) (states gs') =
          [(''CA'', 58, 71 / 2), (''NY'', 56, 75 / 2), (''IL'', 55, 77 / 2),
           (''BC'', 52, 83 / 2), (''FL'', 48, 91 / 2), (''PA'', 49, 89 / 2),
           (''GA'', 47, 93 / 2), (''MI'', 97 / 2, 45), (''AZ'', 47, 91 / 2),
           (''WI'', 48, 91 / 2), (''OH'', 44, 99 / 2), (''NC'', 45, 97 / 2),
           (''TX'', 42, 103 / 2), (''RC'', 38, 111 / 2)])"
proof -
  have h1: "cost (get_action_definition OPPOSITION_RESEARCH) \<le> funds (acting_player sample_state True)"
    and h2: "- 100 \<le> momentum (acting_player sample_state True)"
    and h3: "momentum (acting_player sample_state True) \<le> 100"
    by (simp_all add: acting_player_def sample_state_def opening_state_def)
  have h4: "distinct (dict_keys (states sample_state))"
    by (simp add: eval_defs)
  obtain gs' res rng' where ex:
    "execute_action scripted sample_state OPPOSITION_RESEARCH True None [] = ((gs', res), rng')"
    by (metis prod.exhaust)
  have t: "success res \<and> funds_spent res = 3 \<and> res_momentum_change res = 0 \<and>
           affected_states res = dict_keys (states sample_state)"
    using opposition_research_effect
            [OF h1 h2 h3 h4, where R = scripted and targets = None and rng = "[]"]
    unfolding ex prod.case by blast
  have ev: "funds (incumbent gs') = 12 \<and> momentum (incumbent gs') = 0 \<and>
        challenger gs' = challenger sample_state \<and>
        list_all (\<lambda>kv. snd kv = - (5 / 2)) (support_changes res) \<and>
        map (\<lambda>(k, s). (k, incumbent_support s, challenger_support s)) (states gs') =
          [(''CA'', 58, 71 / 2), (''NY'', 56, 75 / 2), (''IL'', 55, 77 / 2),
           (''BC'', 52, 83 / 2), (''FL'', 48, 91 / 2), (''PA'', 49, 89 / 2),
           (''GA'', 47, 93 / 2), (''MI'', 97 / 2, 45), (''AZ'', 47, 91 / 2),
           (''WI'', 48, 91 / 2), (''OH'', 44, 99 / 2), (''NC'', 45, 97 / 2),
           (''TX'', 42, 103 / 2), (''RC'', 38, 111 / 2)]"
    using ex by (auto simp: eval_defs)
  show ?thesis unfolding ex prod.case using h1 h2 h3 h4 t ev by blast
qed

subsection \<open>Targeted actions and unknown abbreviations\<close>

lemma execute_action_targeted:
  assumes "atype = RALLY \<or> atype = AD_CAMPAIGN \<or> atype = GRASSROOTS"
    and "cost (get_action_definition atype) \<le> funds (acting_player gs is_inc)"
  shows "execute_action R gs atype is_inc targs rng
           = (execute_targeted_action gs is_inc (get_action_definition atype) targs, rng)"
  using assms by (auto simp: execute_action_def can_afford_def Let_def)

lemma execute_targeted_action_eq:
  assumes "ts \<noteq> []"
    and "targets_loop
           (\<lambda>state. if is_inc
                    then apply_support_change state
                           (base_support_change d * momentum_modifier (acting_player gs is_inc)) 0
                    else apply_support_change state 0
                           (base_support_change d * momentum_modifier (acting_player gs is_inc)))
           (base_support_change d * momentum_modifier (acting_player gs is_inc))
           (take (nat (target_states d)) ts) (states gs) = (ns, ch)"
  shows "execute_targeted_action gs is_inc d (Some ts) =
     ((if is_inc
       then gs\<lparr> incumbent := update (acting_player gs is_inc) (- cost d) (momentum_change d),
                 states := ns \<rparr>
       else gs\<lparr> challenger := update (acting_player gs is_inc) (- cost d) (momentum_change d),
                 states := ns \<rparr>),
      \<lparr> res_action_type = action_type d, success = True,
        message = TargetedBoost (def_name d)
                    (base_support_change d * momentum_modifier (acting_player gs is_inc))
                    (take (nat (target_states d)) ts),
        funds_spent = cost d, funds_raised = 0, support_changes = ch,
        res_momentum_change = momentum_change d,
        affected_states = take (nat (target_states d)) ts \<rparr>)"
  using assms by (simp add: execute_targeted_action_def Let_def)

text \<open>
  C9, as stated, fails: the target list is cut to the number of targets the action
  allows before anything else is done with it, so an unknown abbreviation beyond that
  number is not listed in \<open>affected_states\<close>. A Rally takes one target; with the
  targets FL and XX it succeeds and lists FL alone.
\<close>

theorem unknown_target_not_listed:
  "map_of (states sample_state) ''XX'' = None \<and>
   cost (get_action_definition RALLY) \<le> funds (acting_player sample_state True) \<and>
   success (snd (fst (execute_action scripted sample_state RALLY True
                        (Some [''FL'', ''XX'']) []))) \<and>
   ''XX'' \<notin> set (affected_states (snd (fst (execute_action scripted sample_state RALLY True
                        (Some [''FL'', ''XX'']) []))))"
  by (simp add: eval_defs)

text \<open>
  C9, amended. For Rally, Ad Campaign and Grassroots, an acting player who can afford
  the action and a non-empty target list, \<open>execute_action\<close> succeeds, takes the full
  cost and applies the action's momentum change (clamped to \<open>[-100, 100]\<close>) whatever
  the targets are. With \<open>listed\<close> the first \<open>target_states\<close> entries of the list:
  \<open>affected_states\<close> is \<open>listed\<close>, unknown abbreviations included; the keys of the
  board are unchanged; the state under a key has received the change once per
  occurrence of the key in \<open>listed\<close>; \<open>support_changes\<close> has an entry exactly for the
  known abbreviations of \<open>listed\<close>.
\<close>

theorem targeted_action_unknown_targets:
  assumes targeted: "atype = RALLY \<or> atype = AD_CAMPAIGN \<or> atype = GRASSROOTS"
    and afford: "cost (get_action_definition atype) \<le> funds (acting_player gs is_inc)"
    and nonempty: "ts \<noteq> []"
  shows
    "let d = get_action_definition atype;
         p = acting_player gs is_inc;
         listed = take (nat (target_states d)) ts;
         eff = base_support_change d * momentum_modifier p;
         change = (\<lambda>s. if is_inc then apply_support_change s eff 0
                        else apply_support_change s 0 eff)
     in case execute_action R gs atype is_inc (Some ts) rng of
          ((gs', res), rng') \<Rightarrow>
            rng' = rng \<and> success res \<and> funds_spent res = cost d \<and>
            res_momentum_change res = momentum_change d \<and>
            acting_player gs' is_inc
              = p\<lparr> funds := funds p - cost d,
                    momentum := max (- 100) (min 100 (momentum p + momentum_change d)) \<rparr> \<and>
            acting_player gs' (\<not> is_inc) = acting_player gs (\<not> is_inc) \<and>
            affected_states res = listed \<and>
            dict_keys (states gs') = dict_keys (states gs) \<and>
            (\<forall>k. map_of (states gs') k
                   = map_option (change ^^ count_list listed k) (map_of (states gs) k)) \<and>
            (\<forall>k. map_of (support_changes res) k
                   = (if k \<in> set listed \<and> map_of (states gs) k \<noteq> None then Some eff
                      else None)) \<and>
            (\<forall>k. k \<in> set listed \<and> map_of (states gs) k = None
                   \<longrightarrow> k \<in> set (affected_states res) \<and> map_of (states gs') k = None \<and>
                        map_of (support_changes res) k = None)"
proof -
  define d where "d = get_action_definition atype"
  define p where "p = acting_player gs is_inc"
  define listed where "listed = take (nat (target_states d)) ts"
  define eff where "eff = base_support_change d * momentum_modifier p"
  define change where "change = (\<lambda>s. if is_inc then apply_support_change s eff 0
                        else apply_support_change s 0 eff)"
  obtain ns ch where loop: "targets_loop change eff listed (states gs) = (ns, ch)"
    by (cases "targets_loop change eff listed (states gs)")
  define gs' where "gs' = (if is_inc
       then gs\<lparr> incumbent := update p (- cost d) (momentum_change d), states := ns \<rparr>
       else gs\<lparr> challenger := update p (- cost d) (momentum_change d), states := ns \<rparr>)"
  define res where "res =
      \<lparr> res_action_type = action_type d, success = True,
        message = TargetedBoost (def_name d) eff listed,
        funds_spent = cost d, funds_raised = 0, support_changes = ch,
        res_momentum_change = momentum_change d,
        affected_states = listed \<rparr>"
  have ex: "execute_action R gs atype is_inc (Some ts) rng = ((gs', res), rng)"
    unfolding execute_action_targeted [OF targeted afford] d_def [symmetric]
    using execute_targeted_action_eq [OF nonempty, of is_inc d gs ns ch] loop
    unfolding gs'_def res_def change_def eff_def listed_def p_def by simp
  have up: "update p (- cost d) (momentum_change d)
              = p\<lparr> funds := funds p - cost d,
                    momentum := max (- 100) (min 100 (momentum p + momentum_change d)) \<rparr>"
    using afford unfolding d_def p_def by (rule update_spend)
  have fold: "fold (targets_step change eff) listed (states gs, []) = (ns, ch)"
    using loop by (simp add: targets_loop_def)
  note tf = targets_fold_all [OF fold]
  have f1: "success res" "funds_spent res = cost d" "res_momentum_change res = momentum_change d"
    "affected_states res = listed"
    by (simp_all add: res_def)
  have f2: "acting_player gs' is_inc
              = p\<lparr> funds := funds p - cost d,
                    momentum := max (- 100) (min 100 (momentum p + momentum_change d)) \<rparr>"
    by (simp add: gs'_def acting_player_def up)
  have f3: "acting_player gs' (\<not> is_inc) = acting_player gs (\<not> is_inc)"
    by (simp add: gs'_def acting_player_def)
  have sts: "states gs' = ns" by (simp add: gs'_def)
  have chs: "support_changes res = ch" by (simp add: res_def)
  have f4: "dict_keys (states gs') = dict_keys (states gs)"
    using tf [of "[]"] by (simp add: sts dict_keys_def)
  have f5: "\<forall>k. map_of (states gs') k
                   = map_option (change ^^ count_list listed k) (map_of (states gs) k)"
    using tf by (simp add: sts)
  have f6: "\<forall>k. map_of (support_changes res) k
                   = (if k \<in> set listed \<and> map_of (states gs) k \<noteq> None then Some eff
                      else None)"
    using tf by (simp add: chs)
  have f7: "\<forall>k. k \<in> set listed \<and> map_of (states gs) k = None
                   \<longrightarrow> k \<in> set (affected_states res) \<and> map_of (states gs') k = None \<and>
                        map_of (support_changes res) k = None"
    using f5 f6 f1(4) by simp
  show ?thesis
    unfolding Let_def d_def [symmetric] p_def [symmetric] listed_def [symmetric]
      eff_def [symmetric] change_def [symmetric] ex prod.case
    by (intro conjI refl f1 f2 f3 f4 f5 f6 f7)
qed

theorem targeted_action_unknown_targets_witness:
  "(AD_CAMPAIGN = RALLY \<or> AD_CAMPAIGN = AD_CAMPAIGN \<or> AD_CAMPAIGN = GRASSROOTS) \<and>
   cost (get_action_definition AD_CAMPAIGN) \<le> funds (acting_player sample_state True) \<and>
   [''FL'', ''XX'', ''PA''] \<noteq> [] \<and>
   map_of (states sample_state) ''XX'' = None \<and>
   (case execute_action scripted sample_state AD_CAMPAIGN True
           (Some [''FL'', ''XX'', ''PA'']) [] of
      ((gs', res), rng') \<Rightarrow>
        success res \<and> funds_spent res = 4 \<and> res_momentum_change res = 3 \<and>
        affected_states res = [''FL'', ''XX'', ''PA''] \<and>
        funds (incumbent gs') = 11 \<and> momentum (incumbent gs') = 3 \<and>
        support_changes res = [(''FL'', 2), (''PA'', 2)] \<and>
        map_of (states gs') ''XX'' = None \<and>
        map (\<lambda>(k, s). (k, incumbent_support s, challenger_support s)) (states gs') =
          [(''CA'', 58, 38), (''NY'', 56, 40), (''IL'', 55, 41), (''BC'', 52, 44),
           (''FL'', 50, 48), (''PA'', 51, 47), (''GA'', 47, 49), (''MI'', 97 / 2, 95 / 2),
           (''AZ'', 47, 48), (''WI'', 48, 48), (''OH'', 44, 52), (''NC'', 45, 51),
           (''TX'', 42, 54), (''RC'', 38, 58)])"
proof -
  have h1: "AD_CAMPAIGN = RALLY \<or> AD_CAMPAIGN = AD_CAMPAIGN \<or> AD_CAMPAIGN = GRASSROOTS"
    by simp
  have h2: "cost (get_action_definition AD_CAMPAIGN) \<le> funds (acting_player sample_state True)"
    by (simp add: acting_player_def sample_state_def opening_state_def)
  have h3: "[''FL'', ''XX'', ''PA''] \<noteq> []" by simp
  have xx: "map_of (states sample_state) ''XX'' = None" by (simp add: eval_defs)
  obtain gs' res rng' where ex:
    "execute_action scripted sample_state AD_CAMPAIGN True (Some [''FL'', ''XX'', ''PA'']) []
       = ((gs', res), rng')"
    by (metis prod.exhaust)
  have "success res \<and> funds_spent res = cost (get_action_definition AD_CAMPAIGN) \<and>
        res_momentum_change res = momentum_change (get_action_definition AD_CAMPAIGN) \<and>
        affected_states res = take (nat (target_states (get_action_definition AD_CAMPAIGN)))
                                [''FL'', ''XX'', ''PA'']"
    using targeted_action_unknown_targets [OF h1 h2 h3, where R = scripted and rng = "[]"]
    unfolding Let_def ex prod.case by blast
  then have t: "success res \<and> funds_spent res = 4 \<and> res_momentum_change res = 3 \<and>
                affected_states res = [''FL'', ''XX'', ''PA'']"
    by simp
  have ev: "funds (incumbent gs') = 11 \<and> momentum (incumbent gs') = 3 \<and>
        support_changes res = [(''FL'', 2), (''PA'', 2)] \<and>
        map_of (states gs') ''XX'' = None \<and>
        map (\<lambda>(k, s). (k, incumbent_support s, challenger_support s)) (states gs') =
          [(''CA'', 58, 38), (''NY'', 56, 40), (''IL'', 55, 41), (''BC'', 52, 44),
           (''FL'', 50, 48), (''PA'', 51, 47), (''GA'', 47, 49), (''MI'', 97 / 2, 95 / 2),
           (''AZ'', 47, 48), (''WI'', 48, 48), (''OH'', 44, 52), (''NC'', 45, 51),
           (''TX'', 42, 54), (''RC'', 38, 58)]"
    using ex by (auto simp: eval_defs)
  show ?thesis unfolding ex prod.case using h1 h2 h3 xx t ev by blast
qed

subsection \<open>The electoral votes of the board\<close>

lemma board_votes_keys: "map fst (board_votes sts) = map fst sts"
  by (simp add: board_votes_def comp_def case_prod_beta)

lemma board_votes_total: "sum_list (map snd (board_votes sts)) = sum_list (map electoral_votes (map snd sts))"
  by (simp add: board_votes_def comp_def case_prod_beta)

lemma initial_board_votes:
  "board_votes create_initial_states =
     [(''CA'', 54), (''NY'', 28), (''IL'', 19), (''BC'', 127), (''FL'', 30), (''PA'', 19),
      (''GA'', 16), (''MI'', 15), (''AZ'', 11), (''WI'', 10), (''OH'', 17), (''NC'', 16),
      (''TX'', 40), (''RC'', 136)]"
  by (simp add: board_votes_def create_initial_states_def INITIAL_STATES_CONFIG_def)

lemma initial_board_distinct:
  assumes "board_votes sts = board_votes create_initial_states"
  shows "distinct (map fst sts)"
proof -
  have "map fst sts = map fst (board_votes create_initial_states)"
    using assms board_votes_keys [of sts] by simp
  then show ?thesis unfolding initial_board_votes by simp
qed

lemma all_states_loop_votes:
  assumes "distinct (map fst sts)" and "\<And>s. electoral_votes (f s) = electoral_votes s"
  shows "board_votes (fst (all_states_loop f e sts)) = board_votes sts"
  using assms by (simp add: all_states_loop_map board_votes_def comp_def case_prod_beta)

lemma targets_loop_votes:
  assumes "\<And>s. electoral_votes (f s) = electoral_votes s"
  shows "board_votes (fst (targets_loop f e ts sts)) = board_votes sts"
proof -
  obtain ns ch where l: "fold (targets_step f e) ts (sts, []) = (ns, ch)"
    by (cases "fold (targets_step f e) ts (sts, [])")
  from targets_fold_votes [OF l assms] show ?thesis
    by (simp add: targets_loop_def l board_votes_def)
qed

lemma execute_action_votes:
  assumes "board_votes (states gs) = board_votes create_initial_states"
  shows "board_votes (states (fst (fst (execute_action R gs atype is_inc targs rng))))
           = board_votes create_initial_states"
proof -
  have d: "distinct (map fst (states gs))" using assms by (rule initial_board_distinct)
  have "board_votes (states (fst (fst (execute_action R gs atype is_inc targs rng))))
          = board_votes (states gs)"
    by (simp add: execute_action_def execute_fundraiser_def execute_opposition_research_def
        execute_targeted_action_def execute_national_action_def with_players_def
        Let_def case_prod_beta all_states_loop_votes [OF d] targets_loop_votes)
  then show ?thesis using assms by simp
qed

lemma apply_event_votes:
  assumes "board_votes (states gs) = board_votes create_initial_states"
  shows "board_votes (states (apply_event gs ev)) = board_votes create_initial_states"
proof -
  have d: "distinct (map fst (states gs))" using assms by (rule initial_board_distinct)
  have "board_votes (states (apply_event gs ev)) = board_votes (states gs)"
    by (simp add: apply_event_def Let_def case_prod_beta all_states_loop_votes [OF d]
        targets_loop_votes)
  then show ?thesis using assms by simp
qed

lemma engine_execute_state:
  assumes "engine_execute R e atype is_inc targs = Inr (e', result)"
  shows "\<exists>gs. engine_game_state e = Some gs \<and>
              engine_game_state e'
                = Some (fst (fst (execute_action R gs atype is_inc targs (action_processor e))))"
  using assms
  by (auto simp: engine_execute_def Let_def case_prod_beta split: option.splits)

lemma start_turn_state:
  assumes "start_turn R e = Inr e'"
  shows "\<exists>gs. engine_game_state e = Some gs \<and>
              (engine_game_state e' = Some gs \<or>
               (\<exists>ev. engine_game_state e' = Some (apply_event gs ev)))"
  using assms
  by (auto simp: start_turn_def Let_def case_prod_beta split: option.splits if_splits)

lemma end_game_state:
  assumes "end_game R e g = Inr (e', g')"
  shows "\<exists>gs w. engine_game_state e = Some gs \<and>
                engine_game_state e' = Some (GameState_end_game gs w)"
  using assms
  by (auto simp: end_game_def split: option.splits sum.splits)

lemma end_turn_state:
  assumes "end_turn R e g = Inr (e', g')"
  shows "\<exists>gs. engine_game_state e = Some gs \<and>
              ((\<exists>w. engine_game_state e' = Some (GameState_end_game gs w)) \<or>
               engine_game_state e' = Some (advance_turn gs))"
  using assms end_game_state [of R e g e' g']
  by (auto simp: end_turn_def split: option.splits if_splits)

lemma reachable_votes:
  assumes "reachable R e" and "engine_game_state e = Some gs"
  shows "board_votes (states gs) = board_votes create_initial_states"
  using assms
proof (induction arbitrary: gs rule: reachable.induct)
  case (reach_init fresh_ap fresh_eg seed)
  then show ?case by (simp add: engine_init_def split: option.splits)
next
  case (reach_new_game e player_name challenger_name)
  then show ?case by (auto simp: new_game_def opening_state_def)
next
  case (reach_start_turn e e')
  from start_turn_state [OF reach_start_turn.hyps(2)] reach_start_turn.IH reach_start_turn.prems
  show ?case by (auto simp: apply_event_votes)
next
  case (reach_player_action e atype targets_arg e' result)
  from engine_execute_state [OF reach_player_action.hyps(2) [unfolded execute_player_action_def]]
    reach_player_action.IH reach_player_action.prems
  show ?case by (auto simp: execute_action_votes)
next
  case (reach_ai_action e atype targets_arg e' result)
  from engine_execute_state [OF reach_ai_action.hyps(2) [unfolded execute_ai_action_def]]
    reach_ai_action.IH reach_ai_action.prems
  show ?case by (auto simp: execute_action_votes)
next
  case (reach_end_turn e g e' g')
  from end_turn_state [OF reach_end_turn.hyps(2)] reach_end_turn.IH reach_end_turn.prems
  show ?case by (auto simp: GameState_end_game_def advance_turn_def)
next
  case (reach_end_game e g e' g')
  from end_game_state [OF reach_end_game.hyps(2)] reach_end_game.IH reach_end_game.prems
  show ?case by (auto simp: GameState_end_game_def)
qed

lemma votes_partition:
  "sum_list (map electoral_votes vs)
     = sum_list (map electoral_votes (filter (\<lambda>s. incumbent_support s > challenger_support s) vs))
     + sum_list (map electoral_votes (filter (\<lambda>s. challenger_support s > incumbent_support s) vs))
     + sum_list (map electoral_votes (filter (\<lambda>s. incumbent_support s = challenger_support s) vs))"
  by (induction vs) auto

text \<open>
  C5. In every engine a caller can reach, the board of the current game has the keys
  and the electoral votes of the shipped configuration, the votes sum to 538, and this
  total is the sum of the incumbent's, the challenger's and the tied votes as the
  derived properties compute them.
\<close>

theorem electoral_votes_invariant:
  assumes "reachable R e" and "engine_game_state e = Some gs"
  shows "board_votes (states gs) = board_votes create_initial_states \<and>
         total_electoral_votes gs = 538 \<and>
         total_electoral_votes gs
           = incumbent_electoral_votes gs + challenger_electoral_votes gs
             + tied_electoral_votes gs"
proof -
  have b: "board_votes (states gs) = board_votes create_initial_states"
    using assms by (rule reachable_votes)
  have "total_electoral_votes gs = sum_list (map snd (board_votes (states gs)))"
    by (simp add: total_electoral_votes_def dict_values_def board_votes_total)
  also have "\<dots> = 538" unfolding b initial_board_votes by simp
  finally have t: "total_electoral_votes gs = 538" .
  have "total_electoral_votes gs
           = incumbent_electoral_votes gs + challenger_electoral_votes gs
             + tied_electoral_votes gs"
    unfolding total_electoral_votes_def incumbent_electoral_votes_def
      challenger_electoral_votes_def tied_electoral_votes_def
    by (rule votes_partition)
  with b t show ?thesis by simp
qed

theorem electoral_votes_invariant_witness:
  "\<exists>e' result gs'.
     execute_player_action scripted sample_engine OPPOSITION_RESEARCH None = Inr (e', result) \<and>
     reachable scripted e' \<and> engine_game_state e' = Some gs' \<and>
     total_electoral_votes gs' = 538 \<and>
     total_electoral_votes gs'
       = incumbent_electoral_votes gs' + challenger_electoral_votes gs'
         + tied_electoral_votes gs'"
proof -
  have r0: "reachable scripted sample_engine"
    unfolding sample_engine_def by (intro reach_new_game reach_init)
  obtain e' result where ex:
    "execute_player_action scripted sample_engine OPPOSITION_RESEARCH None = Inr (e', result)"
    by (auto simp: execute_player_action_def engine_execute_def sample_engine_state
        Let_def case_prod_beta)
  have r1: "reachable scripted e'" using r0 ex by (rule reach_player_action)
  obtain gs' where st: "engine_game_state e' = Some gs'"
    using engine_execute_state [OF ex [unfolded execute_player_action_def]] by blast
  from electoral_votes_invariant [OF r1 st] ex r1 st show ?thesis by blast
qed

end
